theory Spec2Isabelle
  imports Main "HOL-Library.Multiset"
begin

section \<open>The blog application's view layer (blogicum/blog/views.py)\<close>

subsection \<open>Data model\<close>

text \<open>
  Modelled from the spec: the model declarations of blog/models.py (post, category,
  comment and the user model), which are not among the sources.  The glossary gives a
  post its publication state, date, author and category, a category its publication
  flag, a comment its author; the view code fixes which attributes are read.  Primary
  keys and foreign keys are natural numbers, time stamps are integers,
  \<open>timezone.now()\<close> is the argument \<open>now\<close> of every function that reads the clock.

  A post carries its category as an object, the way \<open>post.category\<close> and
  \<open>select_related('category')\<close> deliver it (following the glossary, every post has a
  category).  \<open>author\<close> and \<open>comment_author\<close> hold the primary key of the user: Django
  compares model instances by primary key.
\<close>

record user =
  user_id :: nat
  username :: string

record category =
  category_id :: nat
  slug :: string
  category_is_published :: bool

record post =
  post_id :: nat
  author :: nat
  category :: category
  is_published :: bool
  pub_date :: int
  title :: string

record comment =
  comment_id :: nat
  comment_author :: nat
  comment_post :: nat
  comment_text :: string

record database =
  users :: "user list"
  categories :: "category list"
  posts :: "post list"
  comments :: "comment list"

text \<open>
  \<open>request.user\<close> is either Django's \<open>AnonymousUser\<close> or a stored user.
  \<open>request.user == obj.author\<close> is false for the anonymous user and compares primary
  keys otherwise.
\<close>

datatype viewer = AnonymousUser | Authenticated user

fun is_authenticated :: "viewer \<Rightarrow> bool" where
  "is_authenticated AnonymousUser = False"
| "is_authenticated (Authenticated u) = True"

fun user_eq :: "viewer \<Rightarrow> nat \<Rightarrow> bool" where
  "user_eq AnonymousUser a = False"
| "user_eq (Authenticated u) a = (user_id u = a)"

subsection \<open>The query builder\<close>

text \<open>
  A queryset of posts is the list of its rows; the annotated queryset pairs every post
  with its \<open>comment_count\<close>.  \<open>Count('comments')\<close> counts the comments whose foreign key
  points to the post.  \<open>Post._meta.ordering\<close> is declared in blog/models.py; it is the
  parameter \<open>meta_ordering\<close>, a sort key on posts (rows with equal keys stay in the order of
  the input, where the database is free to choose).
\<close>

definition Count_comments :: "database \<Rightarrow> post \<Rightarrow> nat" where
  "Count_comments db p = length (filter (\<lambda>c. comment_post c = post_id p) (comments db))"

definition get_annotated_posts ::
  "(post \<Rightarrow> 'k::linorder) \<Rightarrow> database \<Rightarrow> int \<Rightarrow> post list option \<Rightarrow> bool \<Rightarrow> (post \<times> nat) list"
where
  "get_annotated_posts meta_ordering db now queryset published_only =
     (let queryset1 = (case queryset of None \<Rightarrow> posts db | Some q \<Rightarrow> q);
          queryset2 = map (\<lambda>p. (p, Count_comments db p)) queryset1;
          queryset3 =
            (if published_only
             then filter (\<lambda>(p, n). is_published p
                                   \<and> category_is_published (category p)
                                   \<and> pub_date p \<le> now) queryset2
             else queryset2)
      in sort_key (\<lambda>(p, n). meta_ordering p) queryset3)"





subsection \<open>Requests, responses, errors\<close>

text \<open>
  A request carries the viewer, the method (the two methods that links and HTML forms
  issue), the \<open>page\<close> parameter of the query string and the submitted form data
  (\<open>request.POST\<close>, empty when nothing was submitted).  The \<open>page\<close> parameter is
  classified the way \<open>int()\<close> sees it: absent or empty, a string that \<open>int()\<close> accepts,
  the literal \<open>last\<close>, or any other string.
\<close>

datatype http_method = GET | POST

datatype page_arg = PageAbsent | PageNumber int | PageLast | PageMalformed

type_synonym qdata = "(string \<times> string) list"

record request =
  user :: viewer
  request_method :: http_method
  GET_page :: page_arg
  POST_data :: qdata

datatype invalid_page = PageNotAnInteger | EmptyPage

datatype error = Http404 | PermissionDenied | InvalidPage invalid_page

datatype url = Blog_index | Blog_profile string | Blog_post_detail nat | Login_url

datatype form =
    CommentForm "qdata option" "comment option"
  | PostForm "qdata option" "post option"
  | DeleteForm

datatype ctx_value =
    PageVal "(post \<times> nat) list"
  | PostVal post
  | CommentsVal "comment list"
  | CategoryVal category
  | CommentVal comment
  | UserVal user
  | FormVal form

type_synonym context_dict = "string \<rightharpoonup> ctx_value"

datatype response =
    Render string context_dict
  | Redirect url
  | HttpResponseNotAllowed

text \<open>
  \<open>get_object_or_404\<close> and \<open>SingleObjectMixin.get_object\<close> look a row up and raise
  \<open>Http404\<close> when there is none.  The lookups of this module are by primary key, by
  user name or by slug.
\<close>

definition get_object_or_404 :: "'a list \<Rightarrow> ('a \<Rightarrow> bool) \<Rightarrow> error + 'a" where
  "get_object_or_404 table cond =
     (case find cond table of None \<Rightarrow> Inl Http404 | Some x \<Rightarrow> Inr x)"

text \<open>
  The lookup of a post or a comment by primary key: \<open>get_object()\<close> of the generic
  views with \<open>model = Post\<close> or \<open>model = Comment\<close> and the \<open>pk_url_kwarg\<close> of the URL,
  and \<open>get_object_or_404(Post, id=post_id)\<close>.
\<close>

definition Post_get_object :: "database \<Rightarrow> nat \<Rightarrow> error + post" where
  "Post_get_object db pk = get_object_or_404 (posts db) (\<lambda>p. post_id p = pk)"

definition Comment_get_object :: "database \<Rightarrow> nat \<Rightarrow> error + comment" where
  "Comment_get_object db pk = get_object_or_404 (comments db) (\<lambda>c. comment_id c = pk)"

subsection \<open>Pagination (django.core.paginator, as the views use it)\<close>

text \<open>
  The views build \<open>Paginator(posts, 10)\<close>: no orphans, an empty first page is allowed.
  A page is the slice of the object list it holds.
\<close>

definition num_pages :: "'a list \<Rightarrow> nat \<Rightarrow> nat" where
  "num_pages object_list per_page =
     (let hits = max 1 (length object_list) in (hits + per_page - 1) div per_page)"

fun validate_number :: "'a list \<Rightarrow> nat \<Rightarrow> page_arg \<Rightarrow> invalid_page + nat" where
  "validate_number object_list per_page (PageNumber n) =
     (if n < 1 then Inl EmptyPage
      else if nat n > num_pages object_list per_page then Inl EmptyPage
      else Inr (nat n))"
| "validate_number object_list per_page other = Inl PageNotAnInteger"

definition page :: "'a list \<Rightarrow> nat \<Rightarrow> page_arg \<Rightarrow> invalid_page + 'a list" where
  "page object_list per_page number =
     (case validate_number object_list per_page number of
        Inl e \<Rightarrow> Inl e
      | Inr n \<Rightarrow>
          (let bottom = (n - 1) * per_page;
               top = bottom + per_page;
               top' = (if top \<ge> length object_list then length object_list else top)
           in Inr (take (top' - bottom) (drop bottom object_list))))"

definition get_page :: "'a list \<Rightarrow> nat \<Rightarrow> page_arg \<Rightarrow> invalid_page + 'a list" where
  "get_page object_list per_page number =
     (let n = (case validate_number object_list per_page number of
                 Inr n \<Rightarrow> n
               | Inl PageNotAnInteger \<Rightarrow> 1
               | Inl EmptyPage \<Rightarrow> num_pages object_list per_page)
      in page object_list per_page (PageNumber (int n)))"

text \<open>
  \<open>MultipleObjectMixin.paginate_queryset\<close>, which \<open>ListView\<close> runs when \<open>paginate_by\<close>
  is set: a page that is no number and not \<open>last\<close>, or that is out of range, is a 404.
\<close>

definition paginate_queryset :: "'a list \<Rightarrow> nat \<Rightarrow> page_arg \<Rightarrow> error + 'a list" where
  "paginate_queryset queryset page_size page_kw =
     (case (case page_kw of
              PageAbsent \<Rightarrow> Inr 1
            | PageNumber n \<Rightarrow> Inr n
            | PageLast \<Rightarrow> Inr (int (num_pages queryset page_size))
            | PageMalformed \<Rightarrow> Inl Http404) of
        Inl e \<Rightarrow> Inl e
      | Inr page_number \<Rightarrow>
          (case page queryset page_size (PageNumber page_number) of
             Inl e \<Rightarrow> Inl Http404
           | Inr pg \<Rightarrow> Inr pg))"

subsection \<open>Page views\<close>

definition PostsListView ::
  "(post \<Rightarrow> 'k::linorder) \<Rightarrow> database \<Rightarrow> int \<Rightarrow> request \<Rightarrow> error + response"
where
  "PostsListView meta_ordering db now request =
     (case request_method request of
        POST \<Rightarrow> Inr HttpResponseNotAllowed
      | GET \<Rightarrow>
          (let queryset = get_annotated_posts meta_ordering db now None True
           in case paginate_queryset queryset 10 (GET_page request) of
                Inl e \<Rightarrow> Inl e
              | Inr pg \<Rightarrow>
                  Inr (Render ''blog/index.html''
                        [''page_obj'' \<mapsto> PageVal pg, ''object_list'' \<mapsto> PageVal pg])))"

definition PostDetailView_get_object ::
  "database \<Rightarrow> int \<Rightarrow> request \<Rightarrow> nat \<Rightarrow> error + post"
where
  "PostDetailView_get_object db now request pk =
     (case Post_get_object db pk of
        Inl e \<Rightarrow> Inl e
      | Inr post \<Rightarrow>
          if is_authenticated (user request) \<and> user_eq (user request) (author post)
          then Inr post
          else if is_published post
                  \<and> category_is_published (category post)
                  \<and> pub_date post \<le> now
          then Inr post
          else Inl Http404)"

definition PostDetailView :: "database \<Rightarrow> int \<Rightarrow> request \<Rightarrow> nat \<Rightarrow> error + response" where
  "PostDetailView db now request pk =
     (case request_method request of
        POST \<Rightarrow> Inr HttpResponseNotAllowed
      | GET \<Rightarrow>
          (case PostDetailView_get_object db now request pk of
             Inl e \<Rightarrow> Inl e
           | Inr post \<Rightarrow>
               Inr (Render ''blog/detail.html''
                     [''object'' \<mapsto> PostVal post, ''post'' \<mapsto> PostVal post,
                      ''form'' \<mapsto> FormVal (CommentForm None None),
                      ''comments'' \<mapsto>
                         CommentsVal (filter (\<lambda>c. comment_post c = post_id post)
                                        (comments db))])))"

definition category_posts ::
  "(post \<Rightarrow> 'k::linorder) \<Rightarrow> database \<Rightarrow> int \<Rightarrow> request \<Rightarrow> string \<Rightarrow> error + response"
where
  "category_posts meta_ordering db now request category_slug =
     (case get_object_or_404 (categories db)
             (\<lambda>c. slug c = category_slug \<and> category_is_published c) of
        Inl e \<Rightarrow> Inl e
      | Inr cat \<Rightarrow>
          (let posts_qs = get_annotated_posts meta_ordering db now
                 (Some (filter (\<lambda>p. category_id (category p) = category_id cat) (posts db)))
                 True
           in case get_page posts_qs 10 (GET_page request) of
                Inl e \<Rightarrow> Inl (InvalidPage e)
              | Inr page_obj \<Rightarrow>
                  Inr (Render ''blog/category.html''
                        [''page_obj'' \<mapsto> PageVal page_obj, ''category'' \<mapsto> CategoryVal cat])))"

text \<open>
  \<open>ProfileView.get_context_data\<close> first chooses the queryset (the local variable
  \<open>posts\<close>), then paginates it.
\<close>

definition ProfileView_posts ::
  "(post \<Rightarrow> 'k::linorder) \<Rightarrow> database \<Rightarrow> int \<Rightarrow> viewer \<Rightarrow> user \<Rightarrow> (post \<times> nat) list"
where
  "ProfileView_posts meta_ordering db now current_user object =
     (if is_authenticated current_user \<and> user_eq current_user (user_id object)
      then get_annotated_posts meta_ordering db now
             (Some (filter (\<lambda>p. author p = user_id object) (posts db))) False
      else get_annotated_posts meta_ordering db now
             (Some (filter (\<lambda>p. author p = user_id object) (posts db))) True)"

definition ProfileView ::
  "(post \<Rightarrow> 'k::linorder) \<Rightarrow> database \<Rightarrow> int \<Rightarrow> request \<Rightarrow> string \<Rightarrow> error + response"
where
  "ProfileView meta_ordering db now request uname =
     (case request_method request of
        POST \<Rightarrow> Inr HttpResponseNotAllowed
      | GET \<Rightarrow>
          (case get_object_or_404 (users db) (\<lambda>u. username u = uname) of
             Inl e \<Rightarrow> Inl e
           | Inr object \<Rightarrow>
               (let posts_qs = ProfileView_posts meta_ordering db now (user request) object
                in case get_page posts_qs 10 (GET_page request) of
                     Inl e \<Rightarrow> Inl (InvalidPage e)
                   | Inr page_obj \<Rightarrow>
                       Inr (Render ''blog/profile.html''
                             [''object'' \<mapsto> UserVal object, ''profile'' \<mapsto> UserVal object,
                              ''page_obj'' \<mapsto> PageVal page_obj]))))"

subsection \<open>Mutation views\<close>

text \<open>
  The forms of blog/forms.py are parameters: whether a bound form validates, and the
  publication date a valid post form puts on its instance (if any).  A view that reaches
  \<open>save()\<close> or \<open>delete()\<close> issues one write to the ORM; the result of a mutation view
  is its response (or the exception it raises) together with that write, \<open>None\<close> when
  the stored state is left as it was.  Captions and flash messages are left out.
\<close>

record forms =
  CommentForm_is_valid :: "qdata \<Rightarrow> bool"
  PostForm_is_valid :: "qdata \<Rightarrow> bool"
  PostForm_pub_date :: "qdata \<Rightarrow> int option"

datatype orm_write =
    Post_create nat int qdata
  | Post_update nat qdata
  | Post_delete nat
  | Comment_create nat nat qdata
  | Comment_update nat qdata
  | Comment_delete nat

type_synonym outcome = "(error + response) \<times> orm_write option"

text \<open>
  \<open>PostCreateView(LoginRequiredMixin, CreateView)\<close>: an anonymous viewer is sent to the
  login page; a valid form is saved with the viewer as author and \<open>now\<close> as default
  publication date.
\<close>

definition PostCreateView :: "forms \<Rightarrow> int \<Rightarrow> request \<Rightarrow> outcome" where
  "PostCreateView fs now request =
     (case user request of
        AnonymousUser \<Rightarrow> (Inr (Redirect Login_url), None)
      | Authenticated u \<Rightarrow>
          (case request_method request of
             GET \<Rightarrow> (Inr (Render ''blog/create.html''
                             [''form'' \<mapsto> FormVal (PostForm None None)]), None)
           | POST \<Rightarrow>
               if PostForm_is_valid fs (POST_data request)
               then (Inr (Redirect (Blog_profile (username u))),
                     Some (Post_create (user_id u)
                             (case PostForm_pub_date fs (POST_data request) of
                                None \<Rightarrow> now | Some d \<Rightarrow> d)
                             (POST_data request)))
               else (Inr (Render ''blog/create.html''
                            [''form'' \<mapsto> FormVal (PostForm (Some (POST_data request)) None)]),
                     None)))"

text \<open>
  \<open>EditMixin(LoginRequiredMixin, UserPassesTestMixin)\<close>.  The dispatch chain is that of
  the method resolution order: the login check, then \<open>test_func\<close>, then the view's own
  handler; both checks answer a failure with \<open>handle_no_permission\<close>, which the mixin
  overrides.  \<open>get_object\<close> is the lookup of the view that mixes it in, \<open>author_of\<close>
  reads the author of what it found.
\<close>

definition EditMixin_test_func :: "request \<Rightarrow> error + 'a \<Rightarrow> ('a \<Rightarrow> nat) \<Rightarrow> error + bool" where
  "EditMixin_test_func request get_object author_of =
     (case get_object of
        Inl e \<Rightarrow> Inl e
      | Inr post \<Rightarrow> Inr (user_eq (user request) (author_of post)))"

definition EditMixin_handle_no_permission :: "nat \<Rightarrow> response" where
  "EditMixin_handle_no_permission kwargs_post_id = Redirect (Blog_post_detail kwargs_post_id)"

definition EditMixin_dispatch ::
  "request \<Rightarrow> nat \<Rightarrow> error + 'a \<Rightarrow> ('a \<Rightarrow> nat) \<Rightarrow> ('a \<Rightarrow> outcome) \<Rightarrow> outcome"
where
  "EditMixin_dispatch request kwargs_post_id get_object author_of handler =
     (if \<not> is_authenticated (user request)
      then (Inr (EditMixin_handle_no_permission kwargs_post_id), None)
      else case EditMixin_test_func request get_object author_of of
             Inl e \<Rightarrow> (Inl e, None)
           | Inr user_test_result \<Rightarrow>
               if \<not> user_test_result
               then (Inr (EditMixin_handle_no_permission kwargs_post_id), None)
               else (case get_object of
                       Inl e \<Rightarrow> (Inl e, None)
                     | Inr obj \<Rightarrow> handler obj))"

definition PostUpdateView :: "forms \<Rightarrow> database \<Rightarrow> request \<Rightarrow> nat \<Rightarrow> outcome" where
  "PostUpdateView fs db request pk =
     EditMixin_dispatch request pk
       (Post_get_object db pk) author
       (\<lambda>post. case request_method request of
            GET \<Rightarrow> (Inr (Render ''blog/create.html''
                            [''object'' \<mapsto> PostVal post, ''post'' \<mapsto> PostVal post,
                             ''form'' \<mapsto> FormVal (PostForm None (Some post))]), None)
          | POST \<Rightarrow>
              if PostForm_is_valid fs (POST_data request)
              then (Inr (Redirect Blog_index),
                    Some (Post_update (post_id post) (POST_data request)))
              else (Inr (Render ''blog/create.html''
                           [''object'' \<mapsto> PostVal post, ''post'' \<mapsto> PostVal post,
                            ''form'' \<mapsto>
                               FormVal (PostForm (Some (POST_data request)) (Some post))]),
                    None))"

definition PostDeleteView :: "database \<Rightarrow> request \<Rightarrow> nat \<Rightarrow> outcome" where
  "PostDeleteView db request pk =
     EditMixin_dispatch request pk
       (Post_get_object db pk) author
       (\<lambda>post. case request_method request of
            GET \<Rightarrow> (Inr (Render ''blog/create.html''
                            [''object'' \<mapsto> PostVal post, ''post'' \<mapsto> PostVal post,
                             ''form'' \<mapsto> FormVal (PostForm None (Some post))]), None)
          | POST \<Rightarrow> (Inr (Redirect Blog_index), Some (Post_delete (post_id post))))"

text \<open>
  \<open>add_comment\<close>, under \<open>login_required\<close>.  An empty \<open>request.POST\<close> leaves the form
  unbound, and an unbound form never validates.
\<close>

definition add_comment :: "forms \<Rightarrow> database \<Rightarrow> request \<Rightarrow> nat \<Rightarrow> outcome" where
  "add_comment fs db request pk =
     (case user request of
        AnonymousUser \<Rightarrow> (Inr (Redirect Login_url), None)
      | Authenticated u \<Rightarrow>
          (case Post_get_object db pk of
             Inl e \<Rightarrow> (Inl e, None)
           | Inr post \<Rightarrow>
               (let form_data = (if POST_data request = [] then None
                                 else Some (POST_data request))
                in case form_data of
                     None \<Rightarrow> (Inr (Redirect (Blog_post_detail pk)), None)
                   | Some d \<Rightarrow>
                       if CommentForm_is_valid fs d
                       then (Inr (Redirect (Blog_post_detail pk)),
                             Some (Comment_create (user_id u) (post_id post) d))
                       else (Inr (Redirect (Blog_post_detail pk)), None))))"

text \<open>
  \<open>CommentUpdateView(LoginRequiredMixin, UpdateView)\<close> overrides \<open>dispatch\<close>: its own
  author check runs first and raises \<open>PermissionDenied\<close>, then the login check of the
  mixin, then the handler of \<open>UpdateView\<close>.
\<close>

definition CommentUpdateView :: "forms \<Rightarrow> database \<Rightarrow> request \<Rightarrow> nat \<Rightarrow> outcome" where
  "CommentUpdateView fs db request comment_pk =
     (case Comment_get_object db comment_pk of
        Inl e \<Rightarrow> (Inl e, None)
      | Inr comment \<Rightarrow>
          if \<not> user_eq (user request) (comment_author comment)
          then (Inl PermissionDenied, None)
          else if \<not> is_authenticated (user request)
          then (Inr (Redirect Login_url), None)
          else (case request_method request of
                  GET \<Rightarrow> (Inr (Render ''blog/comment.html''
                                  [''object'' \<mapsto> CommentVal comment,
                                   ''comment'' \<mapsto> CommentVal comment,
                                   ''form'' \<mapsto> FormVal (CommentForm None (Some comment))]),
                          None)
                | POST \<Rightarrow>
                    if CommentForm_is_valid fs (POST_data request)
                    then (Inr (Redirect (Blog_post_detail (comment_post comment))),
                          Some (Comment_update (comment_id comment) (POST_data request)))
                    else (Inr (Render ''blog/comment.html''
                                 [''object'' \<mapsto> CommentVal comment,
                                  ''comment'' \<mapsto> CommentVal comment,
                                  ''form'' \<mapsto>
                                     FormVal (CommentForm (Some (POST_data request))
                                                (Some comment))]),
                          None)))"

text \<open>
  \<open>CommentDeleteView(EditMixin, DeleteView)\<close>: the object that \<open>test_func\<close> fetches is
  the comment; the URL also carries the post's key, which \<open>handle_no_permission\<close> reads.
\<close>

definition CommentDeleteView :: "database \<Rightarrow> request \<Rightarrow> nat \<Rightarrow> nat \<Rightarrow> outcome" where
  "CommentDeleteView db request kwargs_post_id comment_pk =
     EditMixin_dispatch request kwargs_post_id
       (Comment_get_object db comment_pk) comment_author
       (\<lambda>comment. case request_method request of
            GET \<Rightarrow> (Inr (Render ''blog/comment.html''
                            [''object'' \<mapsto> CommentVal comment,
                             ''comment'' \<mapsto> CommentVal comment,
                             ''form'' \<mapsto> FormVal DeleteForm]), None)
          | POST \<Rightarrow> (Inr (Redirect (Blog_post_detail (comment_post comment))),
                     Some (Comment_delete (comment_id comment))))"

subsection \<open>What a response delivers\<close>

text \<open>
  Readers of an outcome, for the statements below: whether it is a redirect, the context
  handed to the template, and the page object, the post and the comments in that context.
\<close>

fun is_redirect :: "error + response \<Rightarrow> bool" where
  "is_redirect (Inr (Redirect u)) = True"
| "is_redirect r = False"

fun context_of :: "error + response \<Rightarrow> context_dict" where
  "context_of (Inr (Render template c)) = c"
| "context_of r = Map.empty"

fun page_obj_of :: "error + response \<Rightarrow> (post \<times> nat) list option" where
  "page_obj_of r = (case context_of r ''page_obj'' of Some (PageVal pg) \<Rightarrow> Some pg | _ \<Rightarrow> None)"

fun comments_of :: "error + response \<Rightarrow> comment list option" where
  "comments_of r = (case context_of r ''comments'' of Some (CommentsVal cs) \<Rightarrow> Some cs | _ \<Rightarrow> None)"

subsection \<open>A small database for concrete runs\<close>

text \<open>
  Two users, a published and a hidden category, and four posts of the first user: one
  public, one with its flag unset, one in the hidden category, one dated in the future
  (the clock of the runs stands at 10).  The public post has eleven comments by the second
  user.  Posts are ordered by descending publication date.  A second database holds
  twelve public posts of the first user, more than a page; a third one is the first
  without the three posts that are not public, a fourth one the first without its
  comments.  Two querysets over the first database carry query state:
  \<open>Post.objects.filter(comments__id=1)\<close> and \<open>Post.objects.all()[:3]\<close>.
\<close>

definition alice :: user where
  "alice = \<lparr>user_id = 1, username = ''alice''\<rparr>"

definition bob :: user where
  "bob = \<lparr>user_id = 2, username = ''bob''\<rparr>"

definition news :: category where
  "news = \<lparr>category_id = 1, slug = ''news'', category_is_published = True\<rparr>"

definition drafts :: category where
  "drafts = \<lparr>category_id = 2, slug = ''drafts'', category_is_published = False\<rparr>"

definition post1 :: post where
  "post1 = \<lparr>post_id = 1, author = 1, category = news, is_published = True,
             pub_date = 5, title = ''public''\<rparr>"

definition post2 :: post where
  "post2 = \<lparr>post_id = 2, author = 1, category = news, is_published = False,
             pub_date = 6, title = ''withdrawn''\<rparr>"

definition post3 :: post where
  "post3 = \<lparr>post_id = 3, author = 1, category = drafts, is_published = True,
             pub_date = 7, title = ''hidden category''\<rparr>"

definition post4 :: post where
  "post4 = \<lparr>post_id = 4, author = 1, category = news, is_published = True,
             pub_date = 100, title = ''scheduled''\<rparr>"

definition reply :: "nat \<Rightarrow> comment" where
  "reply i = \<lparr>comment_id = i, comment_author = 2, comment_post = 1, comment_text = ''hi''\<rparr>"

definition blog_db :: database where
  "blog_db = \<lparr>users = [alice, bob], categories = [news, drafts],
               posts = [post1, post2, post3, post4],
               comments = map reply [1, 2, 3, 4, 5, 6, 7, 8, 9, 10, 11]\<rparr>"

definition entry :: "nat \<Rightarrow> post" where
  "entry i = \<lparr>post_id = i, author = 1, category = news, is_published = True,
              pub_date = 5, title = ''entry''\<rparr>"

definition busy_db :: database where
  "busy_db = \<lparr>users = [alice, bob], categories = [news, drafts],
               posts = map entry [1, 2, 3, 4, 5, 6, 7, 8, 9, 10, 11, 12],
               comments = []\<rparr>"

definition public_db :: database where
  "public_db = blog_db\<lparr>posts := [post1]\<rparr>"

definition quiet_db :: database where
  "quiet_db = blog_db\<lparr>comments := []\<rparr>"



definition newest_first :: "post \<Rightarrow> int" where
  "newest_first p = - pub_date p"

definition any_bound_form :: forms where
  "any_bound_form = \<lparr>CommentForm_is_valid = (\<lambda>d. True), PostForm_is_valid = (\<lambda>d. True),
                      PostForm_pub_date = (\<lambda>d. None)\<rparr>"

definition get_by :: "viewer \<Rightarrow> request" where
  "get_by v = \<lparr>user = v, request_method = GET, GET_page = PageAbsent, POST_data = []\<rparr>"

definition post_by :: "viewer \<Rightarrow> qdata \<Rightarrow> request" where
  "post_by v d = \<lparr>user = v, request_method = POST, GET_page = PageAbsent, POST_data = d\<rparr>"

subsection \<open>The permission guard, in the words of the specification\<close>

text \<open>
  ``Shared test deciding whether the current viewer is the resource's author'': the
  viewer is a stored user and that user is the author.  The views are compared with it
  below.
\<close>

definition permission_guard_spec :: "viewer \<Rightarrow> nat \<Rightarrow> bool" where
  "permission_guard_spec current_viewer resource_author =
     (case current_viewer of
        AnonymousUser \<Rightarrow> False
      | Authenticated u \<Rightarrow> user_id u = resource_author)"

section \<open>Properties\<close>

subsection \<open>Query builder\<close>

lemma get_annotated_posts_unfold:
  "get_annotated_posts meta_ordering db now queryset published_only =
     sort_key (\<lambda>(p, n). meta_ordering p)
       (map (\<lambda>p. (p, Count_comments db p))
         (filter (\<lambda>p. published_only \<longrightarrow>
                     is_published p \<and> category_is_published (category p) \<and> pub_date p \<le> now)
           (case queryset of None \<Rightarrow> posts db | Some q \<Rightarrow> q)))"
  by (simp add: get_annotated_posts_def Let_def filter_map comp_def)

lemma insort_key_map:
  "insort_key f (g x) (map g xs) = map g (insort_key (\<lambda>y. f (g y)) x xs)"
  by (induction xs) simp_all

lemma sort_key_map:
  "sort_key f (map g xs) = map g (sort_key (\<lambda>y. f (g y)) xs)"
  by (induction xs) (simp_all add: insort_key_map)

lemma get_annotated_posts_eq:
  "get_annotated_posts meta_ordering db now queryset published_only =
     map (\<lambda>p. (p, Count_comments db p))
       (sort_key meta_ordering
         (filter (\<lambda>p. published_only \<longrightarrow>
                     is_published p \<and> category_is_published (category p) \<and> pub_date p \<le> now)
           (case queryset of None \<Rightarrow> posts db | Some q \<Rightarrow> q)))"
  by (simp add: get_annotated_posts_unfold sort_key_map)


lemma annotation_get_annotated_posts:
  "(p, n) \<in> set (get_annotated_posts meta_ordering db now queryset published_only)
     \<Longrightarrow> n = Count_comments db p"
  by (auto simp: get_annotated_posts_unfold)

lemma sorted_get_annotated_posts:
  "sorted (map (\<lambda>(p, n). meta_ordering p)
     (get_annotated_posts meta_ordering db now queryset published_only))"
  unfolding get_annotated_posts_unfold by (rule sorted_sort_key)

subsection \<open>Lookups and the viewer\<close>

lemma get_object_or_404_Inr:
  "get_object_or_404 table cond = Inr x \<Longrightarrow> x \<in> set table \<and> cond x"
  by (auto simp: get_object_or_404_def find_Some_iff split: option.splits)

lemma Post_get_object_Inr:
  "Post_get_object db pk = Inr p \<Longrightarrow> p \<in> set (posts db) \<and> post_id p = pk"
  unfolding Post_get_object_def by (drule get_object_or_404_Inr) simp

lemma Comment_get_object_Inr:
  "Comment_get_object db pk = Inr c \<Longrightarrow> c \<in> set (comments db) \<and> comment_id c = pk"
  unfolding Comment_get_object_def by (drule get_object_or_404_Inr) simp

lemma user_eq_authenticated: "user_eq v a \<Longrightarrow> is_authenticated v"
  by (cases v) simp_all

lemma user_eq_spec: "user_eq v a = permission_guard_spec v a"
  by (cases v) (simp_all add: permission_guard_spec_def)

lemmas blog_data = blog_db_def alice_def bob_def news_def drafts_def post1_def post2_def
  post3_def post4_def reply_def get_by_def post_by_def any_bound_form_def newest_first_def
  busy_db_def entry_def

lemmas lookup_defs = Post_get_object_def Comment_get_object_def get_object_or_404_def

subsection \<open>Publication\<close>

text \<open>
  C1.  A post counts as published when its flag is set and its publication date is not
  in the future, a category when its flag is set.  The published-only filter of the
  query builder keeps a post of the input exactly when the post and its category are
  published in this sense; the detail view, for a viewer who is not the author, returns
  the post exactly under the same condition and raises \<open>Http404\<close> otherwise.  Nothing
  else enters either decision.
\<close>

theorem published_rule:
  assumes "Post_get_object db pk = Inr post"
      and "\<not> user_eq (user request) (author post)"
  shows "(p \<in> fst ` set (get_annotated_posts meta_ordering db now (Some q) True)
            \<longleftrightarrow> p \<in> set q \<and> (is_published p \<and> pub_date p \<le> now)
                             \<and> category_is_published (category p))
       \<and> (PostDetailView_get_object db now request pk = Inr post
            \<longleftrightarrow> (is_published post \<and> pub_date post \<le> now)
                   \<and> category_is_published (category post))
       \<and> (PostDetailView_get_object db now request pk = Inl Http404
            \<longleftrightarrow> \<not> ((is_published post \<and> pub_date post \<le> now)
                     \<and> category_is_published (category post)))"
proof -
  have "set (map fst (get_annotated_posts meta_ordering db now (Some q) True)) =
          {p \<in> set q. is_published p \<and> category_is_published (category p) \<and> pub_date p \<le> now}"
    by (simp add: get_annotated_posts_eq comp_def)
  then have "p \<in> fst ` set (get_annotated_posts meta_ordering db now (Some q) True)
            \<longleftrightarrow> p \<in> set q \<and> (is_published p \<and> pub_date p \<le> now)
                             \<and> category_is_published (category p)"
    by auto
  moreover from assms have "PostDetailView_get_object db now request pk = Inr post
            \<longleftrightarrow> (is_published post \<and> pub_date post \<le> now)
                   \<and> category_is_published (category post)"
    by (auto simp: PostDetailView_get_object_def)
  moreover from assms have "PostDetailView_get_object db now request pk = Inl Http404
            \<longleftrightarrow> \<not> ((is_published post \<and> pub_date post \<le> now)
                     \<and> category_is_published (category post))"
    by (auto simp: PostDetailView_get_object_def)
  ultimately show ?thesis by blast
qed

theorem published_rule_witness:
  "Post_get_object blog_db 3 = Inr post3
   \<and> \<not> user_eq (user (get_by (Authenticated bob))) (author post3)
   \<and> post3 \<notin> fst ` set (get_annotated_posts newest_first blog_db 10 (Some (posts blog_db)) True)
   \<and> PostDetailView_get_object blog_db 10 (get_by (Authenticated bob)) 3 = Inl Http404
   \<and> Post_get_object blog_db 1 = Inr post1
   \<and> \<not> user_eq (user (get_by AnonymousUser)) (author post1)
   \<and> post1 \<in> fst ` set (get_annotated_posts newest_first blog_db 10 (Some (posts blog_db)) True)
   \<and> PostDetailView_get_object blog_db 10 (get_by AnonymousUser) 1 = Inr post1"
proof -
  have h1: "Post_get_object blog_db 3 = Inr post3"
    by (simp add: lookup_defs blog_data)
  have h2: "\<not> user_eq (user (get_by (Authenticated bob))) (author post3)"
    by (simp add: blog_data)
  have h3: "Post_get_object blog_db 1 = Inr post1"
    by (simp add: lookup_defs blog_data)
  have h4: "\<not> user_eq (user (get_by AnonymousUser)) (author post1)"
    by (simp add: blog_data)
  have hidden: "\<not> category_is_published (category post3)" "post3 \<in> set (posts blog_db)"
    by (simp_all add: blog_data)
  have shown: "is_published post1" "pub_date post1 \<le> 10" "category_is_published (category post1)"
     "post1 \<in> set (posts blog_db)"
    by (simp_all add: blog_data)
  from published_rule [OF h1 h2, where p = post3 and q = "posts blog_db" and now = 10
                         and meta_ordering = newest_first] hidden
  have a: "post3 \<notin> fst ` set (get_annotated_posts newest_first blog_db 10 (Some (posts blog_db)) True)"
          "PostDetailView_get_object blog_db 10 (get_by (Authenticated bob)) 3 = Inl Http404"
    by blast+
  from published_rule [OF h3 h4, where p = post1 and q = "posts blog_db" and now = 10
                         and meta_ordering = newest_first] shown
  have b: "post1 \<in> fst ` set (get_annotated_posts newest_first blog_db 10 (Some (posts blog_db)) True)"
          "PostDetailView_get_object blog_db 10 (get_by AnonymousUser) 1 = Inr post1"
    by blast+
  from h1 h2 h3 h4 a b show ?thesis by blast
qed






subsection \<open>The detail view\<close>

text \<open>
  C7.  For a detail request on an existing post: the author gets the post whatever its
  publication state; any other viewer of a post whose flag is unset, or whose category's
  flag is unset, or whose publication date lies in the future gets \<open>Http404\<close> and no
  context at all.
\<close>

theorem detail_visibility:
  assumes "Post_get_object db pk = Inr post"
  shows "(user_eq (user request) (author post) \<longrightarrow>
            PostDetailView_get_object db now request pk = Inr post
            \<and> (request_method request = GET \<longrightarrow>
                 context_of (PostDetailView db now request pk) ''post'' = Some (PostVal post)))
       \<and> (\<not> user_eq (user request) (author post)
            \<and> (\<not> is_published post \<or> \<not> category_is_published (category post)
                 \<or> now < pub_date post) \<longrightarrow>
            PostDetailView_get_object db now request pk = Inl Http404
            \<and> context_of (PostDetailView db now request pk) = Map.empty
            \<and> (request_method request = GET \<longrightarrow> PostDetailView db now request pk = Inl Http404))"
proof -
  have a: "PostDetailView_get_object db now request pk = Inr post"
    if "user_eq (user request) (author post)"
    using that assms by (simp add: PostDetailView_get_object_def user_eq_authenticated)
  have b: "PostDetailView_get_object db now request pk = Inl Http404"
    if "\<not> user_eq (user request) (author post)"
       "\<not> is_published post \<or> \<not> category_is_published (category post) \<or> now < pub_date post"
    using that assms by (auto simp: PostDetailView_get_object_def)
  have c: "context_of (PostDetailView db now request pk) ''post'' = Some (PostVal post)"
    if "PostDetailView_get_object db now request pk = Inr post" "request_method request = GET"
    using that by (simp add: PostDetailView_def)
  have d: "context_of (PostDetailView db now request pk) = Map.empty"
    if "PostDetailView_get_object db now request pk = Inl Http404"
    using that by (cases "request_method request") (simp_all add: PostDetailView_def)
  have e: "PostDetailView db now request pk = Inl Http404"
    if "PostDetailView_get_object db now request pk = Inl Http404" "request_method request = GET"
    using that by (simp add: PostDetailView_def)
  show ?thesis using a b c d e by blast
qed

theorem detail_visibility_witness:
  "Post_get_object blog_db 2 = Inr post2
   \<and> PostDetailView_get_object blog_db 10 (get_by (Authenticated alice)) 2 = Inr post2
   \<and> context_of (PostDetailView blog_db 10 (get_by (Authenticated alice)) 2) ''post''
        = Some (PostVal post2)
   \<and> PostDetailView_get_object blog_db 10 (get_by (Authenticated bob)) 2 = Inl Http404
   \<and> PostDetailView blog_db 10 (get_by (Authenticated bob)) 2 = Inl Http404"
proof -
  have h: "Post_get_object blog_db 2 = Inr post2"
    by (simp add: lookup_defs blog_data)
  have own: "user_eq (user (get_by (Authenticated alice))) (author post2)"
            "request_method (get_by (Authenticated alice)) = GET"
    by (simp_all add: blog_data)
  have other: "\<not> user_eq (user (get_by (Authenticated bob))) (author post2)"
              "\<not> is_published post2" "request_method (get_by (Authenticated bob)) = GET"
    by (simp_all add: blog_data)
  from detail_visibility [OF h, where request = "get_by (Authenticated alice)" and now = 10] own
  have a: "PostDetailView_get_object blog_db 10 (get_by (Authenticated alice)) 2 = Inr post2"
    "context_of (PostDetailView blog_db 10 (get_by (Authenticated alice)) 2) ''post''
        = Some (PostVal post2)"
    by blast+
  from detail_visibility [OF h, where request = "get_by (Authenticated bob)" and now = 10] other
  have b: "PostDetailView_get_object blog_db 10 (get_by (Authenticated bob)) 2 = Inl Http404"
    "PostDetailView blog_db 10 (get_by (Authenticated bob)) 2 = Inl Http404"
    by blast+
  from h a b show ?thesis by blast
qed

subsection \<open>Commenting\<close>

text \<open>
  C9.  For an authenticated viewer and an existing post, \<open>add_comment\<close> answers with a
  redirect to the detail page of that post whether or not the form validates; a valid
  form creates one comment whose author is the viewer and whose post is the target, an
  invalid (or unbound) form writes nothing.
\<close>

theorem add_comment_result:
  assumes "user request = Authenticated u"
      and "Post_get_object db pk = Inr post"
  shows "fst (add_comment fs db request pk) = Inr (Redirect (Blog_post_detail (post_id post)))
       \<and> (POST_data request \<noteq> [] \<and> CommentForm_is_valid fs (POST_data request) \<longrightarrow>
            snd (add_comment fs db request pk) =
              Some (Comment_create (user_id u) (post_id post) (POST_data request)))
       \<and> (\<not> (POST_data request \<noteq> [] \<and> CommentForm_is_valid fs (POST_data request)) \<longrightarrow>
            snd (add_comment fs db request pk) = None)"
proof -
  from assms(2) have pk: "post_id post = pk"
    by (simp add: Post_get_object_Inr)
  show ?thesis
    using assms pk by (simp add: add_comment_def)
qed

theorem add_comment_result_witness:
  "user (post_by (Authenticated bob) [(''text'', ''hi'')]) = Authenticated bob
   \<and> Post_get_object blog_db 1 = Inr post1
   \<and> add_comment any_bound_form blog_db (post_by (Authenticated bob) [(''text'', ''hi'')]) 1
       = (Inr (Redirect (Blog_post_detail 1)), Some (Comment_create 2 1 [(''text'', ''hi'')]))
   \<and> add_comment any_bound_form blog_db (post_by (Authenticated bob) []) 1
       = (Inr (Redirect (Blog_post_detail 1)), None)"
proof -
  have h: "Post_get_object blog_db 1 = Inr post1"
    by (simp add: lookup_defs blog_data)
  have u1: "user (post_by (Authenticated bob) [(''text'', ''hi'')]) = Authenticated bob"
   and u2: "user (post_by (Authenticated bob) []) = Authenticated bob"
    by (simp_all add: post_by_def)
  have a: "add_comment any_bound_form blog_db (post_by (Authenticated bob) [(''text'', ''hi'')]) 1
       = (Inr (Redirect (Blog_post_detail 1)), Some (Comment_create 2 1 [(''text'', ''hi'')]))"
    using add_comment_result [OF u1 h, of any_bound_form]
    by (simp add: prod_eq_iff post_by_def any_bound_form_def bob_def post1_def)
  have b: "add_comment any_bound_form blog_db (post_by (Authenticated bob) []) 1
       = (Inr (Redirect (Blog_post_detail 1)), None)"
    using add_comment_result [OF u2 h, of any_bound_form]
    by (simp add: prod_eq_iff post_by_def any_bound_form_def bob_def post1_def)
  from h u1 a b show ?thesis by blast
qed

subsection \<open>Page size\<close>

lemma length_page: "page object_list per_page number = Inr pg \<Longrightarrow> length pg \<le> per_page"
  by (auto simp: page_def Let_def split: sum.splits if_splits)

lemma length_get_page: "get_page object_list per_page number = Inr pg \<Longrightarrow> length pg \<le> per_page"
  unfolding get_page_def Let_def by (rule length_page)

lemma length_paginate_queryset:
  "paginate_queryset queryset page_size page_kw = Inr pg \<Longrightarrow> length pg \<le> page_size"
  by (auto simp: paginate_queryset_def split: sum.splits page_arg.splits dest: length_page)

lemma busy_query:
  "get_annotated_posts newest_first busy_db 10 None True =
     map (\<lambda>i. (entry i, 0)) [1, 2, 3, 4, 5, 6, 7, 8, 9, 10, 11, 12]"
  by (simp add: get_annotated_posts_def Count_comments_def busy_db_def entry_def
                newest_first_def news_def)

lemma busy_list_page:
  "page_obj_of (PostsListView newest_first busy_db 10 (get_by AnonymousUser)) =
     Some (map (\<lambda>i. (entry i, 0)) [1, 2, 3, 4, 5, 6, 7, 8, 9, 10])"
  by (simp add: PostsListView_def busy_query paginate_queryset_def page_def num_pages_def
                get_by_def)

text \<open>
  C10.  Whenever the list view, the category view or the profile view hands a page of
  posts to its template, that page holds at most 10 posts.
\<close>

theorem page_size_bound:
  "(page_obj_of (PostsListView meta_ordering db now request) = Some pg1 \<longrightarrow> length pg1 \<le> 10)
   \<and> (page_obj_of (category_posts meta_ordering db now request category_slug) = Some pg2
        \<longrightarrow> length pg2 \<le> 10)
   \<and> (page_obj_of (ProfileView meta_ordering db now request uname) = Some pg3
        \<longrightarrow> length pg3 \<le> 10)"
proof -
  have a: "length pg1 \<le> 10"
    if "page_obj_of (PostsListView meta_ordering db now request) = Some pg1"
    using that
    by (auto simp: PostsListView_def Let_def split: http_method.splits sum.splits
             dest: length_paginate_queryset)
  have b: "length pg2 \<le> 10"
    if "page_obj_of (category_posts meta_ordering db now request category_slug) = Some pg2"
    using that
    by (auto simp: category_posts_def Let_def split: sum.splits dest: length_get_page)
  have c: "length pg3 \<le> 10"
    if "page_obj_of (ProfileView meta_ordering db now request uname) = Some pg3"
    using that
    by (auto simp: ProfileView_def Let_def split: http_method.splits sum.splits
             dest: length_get_page)
  show ?thesis using a b c by blast
qed

theorem page_size_bound_witness:
  "page_obj_of (PostsListView newest_first busy_db 10 (get_by AnonymousUser)) =
     Some (map (\<lambda>i. (entry i, 0)) [1, 2, 3, 4, 5, 6, 7, 8, 9, 10])
   \<and> length (get_annotated_posts newest_first busy_db 10 None True) = 12
   \<and> length (map (\<lambda>i. (entry i, 0 :: nat)) [1, 2, 3, 4, 5, 6, 7, 8, 9, 10]) \<le> 10"
proof -
  have h: "page_obj_of (PostsListView newest_first busy_db 10 (get_by AnonymousUser)) =
     Some (map (\<lambda>i. (entry i, 0)) [1, 2, 3, 4, 5, 6, 7, 8, 9, 10])"
    by (rule busy_list_page)
  have n: "length (get_annotated_posts newest_first busy_db 10 None True) = 12"
    by (simp add: busy_query)
  from page_size_bound [of newest_first busy_db 10 "get_by AnonymousUser"
      "map (\<lambda>i. (entry i, 0)) [1, 2, 3, 4, 5, 6, 7, 8, 9, 10]"] h
  have "length (map (\<lambda>i. (entry i, 0 :: nat)) [1, 2, 3, 4, 5, 6, 7, 8, 9, 10]) \<le> 10"
    by blast
  with h n show ?thesis by blast
qed

subsection \<open>Author-only mutation\<close>

lemma EditMixin_dispatch_write:
  assumes "snd (EditMixin_dispatch request kw get_object author_of handler) = Some w"
  shows "\<exists>obj. get_object = Inr obj \<and> user_eq (user request) (author_of obj)
               \<and> snd (handler obj) = Some w"
  using assms
  by (auto simp: EditMixin_dispatch_def EditMixin_test_func_def split: if_splits sum.splits)

lemma EditMixin_dispatch_rejects:
  assumes "get_object = Inr obj" and "\<not> user_eq (user request) (author_of obj)"
  shows "EditMixin_dispatch request kw get_object author_of handler =
           (Inr (EditMixin_handle_no_permission kw), None)"
  using assms by (simp add: EditMixin_dispatch_def EditMixin_test_func_def)

lemma EditMixin_dispatch_passes:
  assumes "get_object = Inr obj" and "user_eq (user request) (author_of obj)"
  shows "EditMixin_dispatch request kw get_object author_of handler = handler obj"
  using assms by (simp add: EditMixin_dispatch_def EditMixin_test_func_def user_eq_authenticated)

lemma EditMixin_dispatch_redirect:
  assumes "snd (EditMixin_dispatch request kw get_object author_of handler) = Some w"
      and "\<And>obj. snd (handler obj) = Some w \<Longrightarrow> is_redirect (fst (handler obj))"
  shows "is_redirect (fst (EditMixin_dispatch request kw get_object author_of handler))"
proof -
  from EditMixin_dispatch_write [OF assms(1)] obtain obj where
    obj: "get_object = Inr obj" "user_eq (user request) (author_of obj)"
         "snd (handler obj) = Some w"
    by blast
  from obj(1,2) have "EditMixin_dispatch request kw get_object author_of handler = handler obj"
    by (rule EditMixin_dispatch_passes)
  with assms(2) [OF obj(3)] show ?thesis by simp
qed

lemma post1_lookup: "Post_get_object blog_db 1 = Inr post1"
  by (simp add: lookup_defs blog_data)

lemma reply3_lookup: "Comment_get_object blog_db 3 = Inr (reply 3)"
  by (simp add: lookup_defs blog_data)

text \<open>
  C2.  An update or a delete of a post or of a comment is written only when the
  requesting user is the author of that post or comment.  When the resource exists and
  the requester is not its author, nothing is written and the request is turned away:
  the views built on \<open>EditMixin\<close> redirect to the post's detail page, the comment
  update view raises \<open>PermissionDenied\<close>.
\<close>

theorem author_only_mutation:
  "(snd (PostUpdateView fs db request pk) = Some w1 \<longrightarrow>
      (\<exists>post. Post_get_object db pk = Inr post \<and> user_eq (user request) (author post)))
   \<and> (snd (PostDeleteView db request pk) = Some w2 \<longrightarrow>
      (\<exists>post. Post_get_object db pk = Inr post \<and> user_eq (user request) (author post)))
   \<and> (snd (CommentUpdateView fs db request cpk) = Some w3 \<longrightarrow>
      (\<exists>c. Comment_get_object db cpk = Inr c \<and> user_eq (user request) (comment_author c)))
   \<and> (snd (CommentDeleteView db request pk cpk) = Some w4 \<longrightarrow>
      (\<exists>c. Comment_get_object db cpk = Inr c \<and> user_eq (user request) (comment_author c)))
   \<and> (Post_get_object db pk = Inr post \<and> \<not> user_eq (user request) (author post) \<longrightarrow>
        PostUpdateView fs db request pk = (Inr (Redirect (Blog_post_detail pk)), None)
        \<and> PostDeleteView db request pk = (Inr (Redirect (Blog_post_detail pk)), None))
   \<and> (Comment_get_object db cpk = Inr c \<and> \<not> user_eq (user request) (comment_author c) \<longrightarrow>
        CommentUpdateView fs db request cpk = (Inl PermissionDenied, None)
        \<and> CommentDeleteView db request pk cpk = (Inr (Redirect (Blog_post_detail pk)), None))"
proof -
  have a: "\<exists>post. Post_get_object db pk = Inr post \<and> user_eq (user request) (author post)"
    if "snd (PostUpdateView fs db request pk) = Some w1"
    using EditMixin_dispatch_write [OF that [unfolded PostUpdateView_def]] by blast
  have b: "\<exists>post. Post_get_object db pk = Inr post \<and> user_eq (user request) (author post)"
    if "snd (PostDeleteView db request pk) = Some w2"
    using EditMixin_dispatch_write [OF that [unfolded PostDeleteView_def]] by blast
  have c: "\<exists>c. Comment_get_object db cpk = Inr c \<and> user_eq (user request) (comment_author c)"
    if "snd (CommentUpdateView fs db request cpk) = Some w3"
    using that by (auto simp: CommentUpdateView_def split: sum.splits if_splits)
  have d: "\<exists>c. Comment_get_object db cpk = Inr c \<and> user_eq (user request) (comment_author c)"
    if "snd (CommentDeleteView db request pk cpk) = Some w4"
    using EditMixin_dispatch_write [OF that [unfolded CommentDeleteView_def]] by blast
  have e: "PostUpdateView fs db request pk = (Inr (Redirect (Blog_post_detail pk)), None)
        \<and> PostDeleteView db request pk = (Inr (Redirect (Blog_post_detail pk)), None)"
    if "Post_get_object db pk = Inr post" "\<not> user_eq (user request) (author post)"
    using that
    by (simp add: PostUpdateView_def PostDeleteView_def EditMixin_dispatch_rejects
                  EditMixin_handle_no_permission_def)
  have f: "CommentUpdateView fs db request cpk = (Inl PermissionDenied, None)
        \<and> CommentDeleteView db request pk cpk = (Inr (Redirect (Blog_post_detail pk)), None)"
    if "Comment_get_object db cpk = Inr c" "\<not> user_eq (user request) (comment_author c)"
    using that
    by (simp add: CommentUpdateView_def CommentDeleteView_def EditMixin_dispatch_rejects
                  EditMixin_handle_no_permission_def)
  show ?thesis using a b c d e f by blast
qed

theorem author_only_mutation_witness:
  "snd (PostUpdateView any_bound_form blog_db (post_by (Authenticated alice) [(''title'', ''x'')]) 1)
     = Some (Post_update 1 [(''title'', ''x'')])
   \<and> (\<exists>post. Post_get_object blog_db 1 = Inr post
         \<and> user_eq (user (post_by (Authenticated alice) [(''title'', ''x'')])) (author post))
   \<and> Post_get_object blog_db 1 = Inr post1
   \<and> \<not> user_eq (user (post_by (Authenticated bob) [(''title'', ''x'')])) (author post1)
   \<and> PostUpdateView any_bound_form blog_db (post_by (Authenticated bob) [(''title'', ''x'')]) 1
       = (Inr (Redirect (Blog_post_detail 1)), None)
   \<and> PostDeleteView blog_db (post_by (Authenticated bob) [(''title'', ''x'')]) 1
       = (Inr (Redirect (Blog_post_detail 1)), None)
   \<and> Comment_get_object blog_db 3 = Inr (reply 3)
   \<and> \<not> user_eq (user (post_by (Authenticated alice) [(''title'', ''x'')])) (comment_author (reply 3))
   \<and> CommentUpdateView any_bound_form blog_db (post_by (Authenticated alice) [(''title'', ''x'')]) 3
       = (Inl PermissionDenied, None)
   \<and> CommentDeleteView blog_db (post_by (Authenticated alice) [(''title'', ''x'')]) 1 3
       = (Inr (Redirect (Blog_post_detail 1)), None)"
proof -
  have w: "snd (PostUpdateView any_bound_form blog_db
                  (post_by (Authenticated alice) [(''title'', ''x'')]) 1)
             = Some (Post_update 1 [(''title'', ''x'')])"
    by (simp add: PostUpdateView_def EditMixin_dispatch_def EditMixin_test_func_def
                  lookup_defs blog_data)
  have nb: "\<not> user_eq (user (post_by (Authenticated bob) [(''title'', ''x'')])) (author post1)"
    by (simp add: blog_data)
  have na: "\<not> user_eq (user (post_by (Authenticated alice) [(''title'', ''x'')]))
               (comment_author (reply 3))"
    by (simp add: blog_data)
  note thm_a = author_only_mutation [where fs = any_bound_form and db = blog_db and pk = 1
      and cpk = 3 and request = "post_by (Authenticated alice) [(''title'', ''x'')]"
      and ?w1.0 = "Post_update 1 [(''title'', ''x'')]" and c = "reply 3" and post = post1]
  note thm_b = author_only_mutation [where fs = any_bound_form and db = blog_db and pk = 1
      and cpk = 3 and request = "post_by (Authenticated bob) [(''title'', ''x'')]"
      and c = "reply 3" and post = post1]
  from thm_a w have a: "\<exists>post. Post_get_object blog_db 1 = Inr post
         \<and> user_eq (user (post_by (Authenticated alice) [(''title'', ''x'')])) (author post)"
    by blast
  from thm_b post1_lookup nb
  have b: "PostUpdateView any_bound_form blog_db (post_by (Authenticated bob) [(''title'', ''x'')]) 1
       = (Inr (Redirect (Blog_post_detail 1)), None)"
    "PostDeleteView blog_db (post_by (Authenticated bob) [(''title'', ''x'')]) 1
       = (Inr (Redirect (Blog_post_detail 1)), None)"
    by blast+
  from thm_a reply3_lookup na
  have c: "CommentUpdateView any_bound_form blog_db (post_by (Authenticated alice) [(''title'', ''x'')]) 3
       = (Inl PermissionDenied, None)"
    "CommentDeleteView blog_db (post_by (Authenticated alice) [(''title'', ''x'')]) 1 3
       = (Inr (Redirect (Blog_post_detail 1)), None)"
    by blast+
  from w a post1_lookup nb b reply3_lookup na c show ?thesis by blast
qed

text \<open>
  C6.  Whenever one of the six mutation views (create, update, delete of a post;
  create, update, delete of a comment) issues its write, its response is a redirect.
\<close>

theorem mutation_redirects:
  "(snd (PostCreateView fs now request) = Some w1 \<longrightarrow>
       is_redirect (fst (PostCreateView fs now request)))
   \<and> (snd (PostUpdateView fs db request pk) = Some w2 \<longrightarrow>
       is_redirect (fst (PostUpdateView fs db request pk)))
   \<and> (snd (PostDeleteView db request pk) = Some w3 \<longrightarrow>
       is_redirect (fst (PostDeleteView db request pk)))
   \<and> (snd (add_comment fs db request pk) = Some w4 \<longrightarrow>
       is_redirect (fst (add_comment fs db request pk)))
   \<and> (snd (CommentUpdateView fs db request cpk) = Some w5 \<longrightarrow>
       is_redirect (fst (CommentUpdateView fs db request cpk)))
   \<and> (snd (CommentDeleteView db request pk cpk) = Some w6 \<longrightarrow>
       is_redirect (fst (CommentDeleteView db request pk cpk)))"
proof -
  have a: "is_redirect (fst (PostCreateView fs now request))"
    if "snd (PostCreateView fs now request) = Some w1"
    using that
    by (auto simp: PostCreateView_def split: viewer.splits http_method.splits if_splits)
  have b: "is_redirect (fst (PostUpdateView fs db request pk))"
    if "snd (PostUpdateView fs db request pk) = Some w2"
    unfolding PostUpdateView_def
    by (rule EditMixin_dispatch_redirect [OF that [unfolded PostUpdateView_def]])
       (auto split: http_method.splits if_splits)
  have c: "is_redirect (fst (PostDeleteView db request pk))"
    if "snd (PostDeleteView db request pk) = Some w3"
    unfolding PostDeleteView_def
    by (rule EditMixin_dispatch_redirect [OF that [unfolded PostDeleteView_def]])
       (auto split: http_method.splits if_splits)
  have d: "is_redirect (fst (add_comment fs db request pk))"
    if "snd (add_comment fs db request pk) = Some w4"
    using that
    by (auto simp: add_comment_def Let_def split: viewer.splits sum.splits if_splits)
  have e: "is_redirect (fst (CommentUpdateView fs db request cpk))"
    if "snd (CommentUpdateView fs db request cpk) = Some w5"
    using that
    by (auto simp: CommentUpdateView_def split: sum.splits http_method.splits if_splits)
  have f: "is_redirect (fst (CommentDeleteView db request pk cpk))"
    if "snd (CommentDeleteView db request pk cpk) = Some w6"
    unfolding CommentDeleteView_def
    by (rule EditMixin_dispatch_redirect [OF that [unfolded CommentDeleteView_def]])
       (auto split: http_method.splits if_splits)
  show ?thesis using a b c d e f by blast
qed

theorem mutation_redirects_witness:
  "snd (PostCreateView any_bound_form 10 (post_by (Authenticated alice) [(''title'', ''x'')]))
     = Some (Post_create 1 10 [(''title'', ''x'')])
   \<and> is_redirect (fst (PostCreateView any_bound_form 10
                          (post_by (Authenticated alice) [(''title'', ''x'')])))
   \<and> snd (PostUpdateView any_bound_form blog_db
             (post_by (Authenticated alice) [(''title'', ''x'')]) 1)
       = Some (Post_update 1 [(''title'', ''x'')])
   \<and> is_redirect (fst (PostUpdateView any_bound_form blog_db
                          (post_by (Authenticated alice) [(''title'', ''x'')]) 1))
   \<and> snd (PostDeleteView blog_db (post_by (Authenticated alice) [(''title'', ''x'')]) 1)
       = Some (Post_delete 1)
   \<and> is_redirect (fst (PostDeleteView blog_db
                          (post_by (Authenticated alice) [(''title'', ''x'')]) 1))
   \<and> snd (add_comment any_bound_form blog_db (post_by (Authenticated bob) [(''text'', ''x'')]) 1)
       = Some (Comment_create 2 1 [(''text'', ''x'')])
   \<and> is_redirect (fst (add_comment any_bound_form blog_db
                          (post_by (Authenticated bob) [(''text'', ''x'')]) 1))
   \<and> snd (CommentUpdateView any_bound_form blog_db
             (post_by (Authenticated bob) [(''text'', ''x'')]) 3)
       = Some (Comment_update 3 [(''text'', ''x'')])
   \<and> is_redirect (fst (CommentUpdateView any_bound_form blog_db
                          (post_by (Authenticated bob) [(''text'', ''x'')]) 3))
   \<and> snd (CommentDeleteView blog_db (post_by (Authenticated bob) [(''text'', ''x'')]) 1 3)
       = Some (Comment_delete 3)
   \<and> is_redirect (fst (CommentDeleteView blog_db
                          (post_by (Authenticated bob) [(''text'', ''x'')]) 1 3))"
proof -
  have w1: "snd (PostCreateView any_bound_form 10
                   (post_by (Authenticated alice) [(''title'', ''x'')]))
              = Some (Post_create 1 10 [(''title'', ''x'')])"
    by (simp add: PostCreateView_def blog_data)
  have w2: "snd (PostUpdateView any_bound_form blog_db
                   (post_by (Authenticated alice) [(''title'', ''x'')]) 1)
              = Some (Post_update 1 [(''title'', ''x'')])"
    by (simp add: PostUpdateView_def EditMixin_dispatch_def EditMixin_test_func_def
                  lookup_defs blog_data)
  have w3: "snd (PostDeleteView blog_db (post_by (Authenticated alice) [(''title'', ''x'')]) 1)
              = Some (Post_delete 1)"
    by (simp add: PostDeleteView_def EditMixin_dispatch_def EditMixin_test_func_def
                  lookup_defs blog_data)
  have w4: "snd (add_comment any_bound_form blog_db
                   (post_by (Authenticated bob) [(''text'', ''x'')]) 1)
              = Some (Comment_create 2 1 [(''text'', ''x'')])"
    by (simp add: add_comment_def lookup_defs blog_data)
  have w5: "snd (CommentUpdateView any_bound_form blog_db
                   (post_by (Authenticated bob) [(''text'', ''x'')]) 3)
              = Some (Comment_update 3 [(''text'', ''x'')])"
    by (simp add: CommentUpdateView_def lookup_defs blog_data)
  have w6: "snd (CommentDeleteView blog_db (post_by (Authenticated bob) [(''text'', ''x'')]) 1 3)
              = Some (Comment_delete 3)"
    by (simp add: CommentDeleteView_def EditMixin_dispatch_def EditMixin_test_func_def
                  lookup_defs blog_data)
  note posts_run = mutation_redirects [where fs = any_bound_form and db = blog_db
      and now = 10 and pk = 1 and request = "post_by (Authenticated alice) [(''title'', ''x'')]"
      and ?w1.0 = "Post_create 1 10 [(''title'', ''x'')]"
      and ?w2.0 = "Post_update 1 [(''title'', ''x'')]" and ?w3.0 = "Post_delete 1"]
  note comments_run = mutation_redirects [where fs = any_bound_form and db = blog_db
      and pk = 1 and cpk = 3 and request = "post_by (Authenticated bob) [(''text'', ''x'')]"
      and ?w4.0 = "Comment_create 2 1 [(''text'', ''x'')]"
      and ?w5.0 = "Comment_update 3 [(''text'', ''x'')]" and ?w6.0 = "Comment_delete 3"]
  from posts_run w1 w2 w3
  have a: "is_redirect (fst (PostCreateView any_bound_form 10
                          (post_by (Authenticated alice) [(''title'', ''x'')])))"
    "is_redirect (fst (PostUpdateView any_bound_form blog_db
                          (post_by (Authenticated alice) [(''title'', ''x'')]) 1))"
    "is_redirect (fst (PostDeleteView blog_db
                          (post_by (Authenticated alice) [(''title'', ''x'')]) 1))"
    by blast+
  from comments_run w4 w5 w6
  have b: "is_redirect (fst (add_comment any_bound_form blog_db
                          (post_by (Authenticated bob) [(''text'', ''x'')]) 1))"
    "is_redirect (fst (CommentUpdateView any_bound_form blog_db
                          (post_by (Authenticated bob) [(''text'', ''x'')]) 3))"
    "is_redirect (fst (CommentDeleteView blog_db
                          (post_by (Authenticated bob) [(''text'', ''x'')]) 1 3))"
    by blast+
  from w1 w2 w3 w4 w5 w6 a b show ?thesis by blast
qed

subsection \<open>The permission guard\<close>

text \<open>
  C5, as the code has it.  The three views built on \<open>EditMixin\<close> (post update, post
  delete, comment delete) share its \<open>test_func\<close>; the comment update view carries its
  own check in \<open>dispatch\<close>.  For an existing resource each of the four lets the request
  through exactly when the guard of the specification holds: the viewer is the author of
  the resource.  The two creating views have no author check: they turn away exactly
  the anonymous viewer.
\<close>

theorem permission_tests:
  "(Post_get_object db pk = Inr post \<longrightarrow>
      EditMixin_test_func request (Post_get_object db pk) author =
        Inr (permission_guard_spec (user request) (author post))
      \<and> (PostUpdateView fs db request pk = (Inr (EditMixin_handle_no_permission pk), None))
          = (\<not> permission_guard_spec (user request) (author post))
      \<and> (PostDeleteView db request pk = (Inr (EditMixin_handle_no_permission pk), None))
          = (\<not> permission_guard_spec (user request) (author post)))
   \<and> (Comment_get_object db cpk = Inr c \<longrightarrow>
      EditMixin_test_func request (Comment_get_object db cpk) comment_author =
        Inr (permission_guard_spec (user request) (comment_author c))
      \<and> (CommentDeleteView db request pk cpk = (Inr (EditMixin_handle_no_permission pk), None))
          = (\<not> permission_guard_spec (user request) (comment_author c))
      \<and> (CommentUpdateView fs db request cpk = (Inl PermissionDenied, None))
          = (\<not> permission_guard_spec (user request) (comment_author c)))
   \<and> (PostCreateView fs now request = (Inr (Redirect Login_url), None))
       = (\<not> is_authenticated (user request))
   \<and> (add_comment fs db request pk = (Inr (Redirect Login_url), None))
       = (\<not> is_authenticated (user request))"
proof -
  have a: "EditMixin_test_func request (Post_get_object db pk) author =
        Inr (permission_guard_spec (user request) (author post))"
    if "Post_get_object db pk = Inr post"
    using that by (simp add: EditMixin_test_func_def user_eq_spec)
  have b: "(PostUpdateView fs db request pk = (Inr (EditMixin_handle_no_permission pk), None))
          = (\<not> permission_guard_spec (user request) (author post))"
    if "Post_get_object db pk = Inr post"
  proof (cases "user_eq (user request) (author post)")
    case True
    with that show ?thesis
      by (simp add: PostUpdateView_def EditMixin_dispatch_passes user_eq_spec [symmetric]
                    EditMixin_handle_no_permission_def split: http_method.splits)
  next
    case False
    with that show ?thesis
      by (simp add: PostUpdateView_def EditMixin_dispatch_rejects user_eq_spec [symmetric])
  qed
  have c: "(PostDeleteView db request pk = (Inr (EditMixin_handle_no_permission pk), None))
          = (\<not> permission_guard_spec (user request) (author post))"
    if "Post_get_object db pk = Inr post"
  proof (cases "user_eq (user request) (author post)")
    case True
    with that show ?thesis
      by (simp add: PostDeleteView_def EditMixin_dispatch_passes user_eq_spec [symmetric]
                    EditMixin_handle_no_permission_def split: http_method.splits)
  next
    case False
    with that show ?thesis
      by (simp add: PostDeleteView_def EditMixin_dispatch_rejects user_eq_spec [symmetric])
  qed
  have d: "EditMixin_test_func request (Comment_get_object db cpk) comment_author =
        Inr (permission_guard_spec (user request) (comment_author c))"
    if "Comment_get_object db cpk = Inr c"
    using that by (simp add: EditMixin_test_func_def user_eq_spec)
  have e: "(CommentDeleteView db request pk cpk = (Inr (EditMixin_handle_no_permission pk), None))
          = (\<not> permission_guard_spec (user request) (comment_author c))"
    if "Comment_get_object db cpk = Inr c"
  proof (cases "user_eq (user request) (comment_author c)")
    case True
    with that show ?thesis
      by (simp add: CommentDeleteView_def EditMixin_dispatch_passes user_eq_spec [symmetric]
                    EditMixin_handle_no_permission_def split: http_method.splits)
  next
    case False
    with that show ?thesis
      by (simp add: CommentDeleteView_def EditMixin_dispatch_rejects user_eq_spec [symmetric])
  qed
  have f: "(CommentUpdateView fs db request cpk = (Inl PermissionDenied, None))
          = (\<not> permission_guard_spec (user request) (comment_author c))"
    if "Comment_get_object db cpk = Inr c"
    using that
    by (simp add: CommentUpdateView_def user_eq_spec [symmetric] user_eq_authenticated
             split: http_method.splits)
  have g: "(PostCreateView fs now request = (Inr (Redirect Login_url), None))
       = (\<not> is_authenticated (user request))"
    by (simp add: PostCreateView_def split: viewer.splits http_method.splits)
  have h: "(add_comment fs db request pk = (Inr (Redirect Login_url), None))
       = (\<not> is_authenticated (user request))"
    by (simp add: add_comment_def Let_def split: viewer.splits sum.splits)
  show ?thesis using a b c d e f g h by blast
qed

theorem permission_tests_witness:
  "Post_get_object blog_db 1 = Inr post1
   \<and> Comment_get_object blog_db 3 = Inr (reply 3)
   \<and> EditMixin_test_func (post_by (Authenticated bob) []) (Post_get_object blog_db 1) author
       = Inr False
   \<and> PostUpdateView any_bound_form blog_db (post_by (Authenticated bob) []) 1
       = (Inr (EditMixin_handle_no_permission 1), None)
   \<and> PostDeleteView blog_db (post_by (Authenticated bob) []) 1
       = (Inr (EditMixin_handle_no_permission 1), None)
   \<and> EditMixin_test_func (post_by (Authenticated bob) []) (Comment_get_object blog_db 3)
        comment_author = Inr True
   \<and> CommentDeleteView blog_db (post_by (Authenticated bob) []) 1 3
       \<noteq> (Inr (EditMixin_handle_no_permission 1), None)
   \<and> CommentUpdateView any_bound_form blog_db (post_by (Authenticated bob) []) 3
       \<noteq> (Inl PermissionDenied, None)
   \<and> PostCreateView any_bound_form 10 (post_by AnonymousUser [])
       = (Inr (Redirect Login_url), None)
   \<and> add_comment any_bound_form blog_db (post_by AnonymousUser []) 1
       = (Inr (Redirect Login_url), None)"
proof -
  have g1: "\<not> permission_guard_spec (user (post_by (Authenticated bob) [])) (author post1)"
    by (simp add: permission_guard_spec_def blog_data)
  have g2: "permission_guard_spec (user (post_by (Authenticated bob) []))
              (comment_author (reply 3))"
    by (simp add: permission_guard_spec_def blog_data)
  have g3: "\<not> is_authenticated (user (post_by AnonymousUser []))"
    by (simp add: post_by_def)
  note bob_run = permission_tests [where fs = any_bound_form and db = blog_db and pk = 1
      and cpk = 3 and request = "post_by (Authenticated bob) []" and post = post1
      and c = "reply 3"]
  note anon_run = permission_tests [where fs = any_bound_form and db = blog_db and pk = 1
      and now = 10 and request = "post_by AnonymousUser []"]
  from bob_run post1_lookup g1
  have a: "EditMixin_test_func (post_by (Authenticated bob) []) (Post_get_object blog_db 1) author
       = Inr False"
    "PostUpdateView any_bound_form blog_db (post_by (Authenticated bob) []) 1
       = (Inr (EditMixin_handle_no_permission 1), None)"
    "PostDeleteView blog_db (post_by (Authenticated bob) []) 1
       = (Inr (EditMixin_handle_no_permission 1), None)"
    by simp_all
  from bob_run reply3_lookup g2
  have b: "EditMixin_test_func (post_by (Authenticated bob) []) (Comment_get_object blog_db 3)
        comment_author = Inr True"
    "CommentDeleteView blog_db (post_by (Authenticated bob) []) 1 3
       \<noteq> (Inr (EditMixin_handle_no_permission 1), None)"
    "CommentUpdateView any_bound_form blog_db (post_by (Authenticated bob) []) 3
       \<noteq> (Inl PermissionDenied, None)"
    by simp_all
  from anon_run g3
  have c: "PostCreateView any_bound_form 10 (post_by AnonymousUser [])
       = (Inr (Redirect Login_url), None)"
    "add_comment any_bound_form blog_db (post_by AnonymousUser []) 1
       = (Inr (Redirect Login_url), None)"
    by blast+
  from post1_lookup reply3_lookup a b c show ?thesis by blast
qed

text \<open>
  C5, as stated, fails on a creating view: the second user comments on a post of the
  first user, the comment is written, and the shared test applied to the post that the
  request names answers no.
\<close>

theorem shared_test_counterexample:
  "snd (add_comment any_bound_form blog_db (post_by (Authenticated bob) [(''text'', ''hi'')]) 1)
     = Some (Comment_create 2 1 [(''text'', ''hi'')])
   \<and> EditMixin_test_func (post_by (Authenticated bob) [(''text'', ''hi'')])
        (Post_get_object blog_db 1) author = Inr False"
  by (simp add: add_comment_def EditMixin_test_func_def Post_get_object_def
                get_object_or_404_def blog_data)

subsection \<open>Where the page views take their data from\<close>

lemma get_page_is_page:
  "get_page object_list per_page number = Inr pg
     \<Longrightarrow> \<exists>n. page object_list per_page (PageNumber n) = Inr pg"
  unfolding get_page_def Let_def by blast

lemma paginate_queryset_is_page:
  "paginate_queryset queryset page_size page_kw = Inr pg
     \<Longrightarrow> \<exists>n. page queryset page_size (PageNumber n) = Inr pg"
  by (auto simp: paginate_queryset_def split: page_arg.splits sum.splits)

lemma blog_list_page:
  "page_obj_of (PostsListView newest_first blog_db 10 (get_by AnonymousUser)) =
     Some [(post1, 11)]"
  by (simp add: PostsListView_def get_annotated_posts_def Count_comments_def Let_def
                paginate_queryset_def page_def num_pages_def blog_data)

lemma blog_category_page:
  "page_obj_of (category_posts newest_first blog_db 10 (get_by AnonymousUser) ''news'') =
     Some [(post1, 11)]"
  by (simp add: category_posts_def get_annotated_posts_def Count_comments_def Let_def
                get_page_def page_def num_pages_def get_object_or_404_def blog_data)

lemma blog_profile_page:
  "page_obj_of (ProfileView newest_first blog_db 10 (get_by (Authenticated bob)) ''alice'') =
     Some [(post1, 11)]"
  by (simp add: ProfileView_def ProfileView_posts_def get_annotated_posts_def Let_def
                Count_comments_def get_page_def page_def num_pages_def get_object_or_404_def
                blog_data)

lemma blog_detail_page:
  "PostDetailView blog_db 10 (get_by AnonymousUser) 1 =
     Inr (Render ''blog/detail.html''
           [''object'' \<mapsto> PostVal post1, ''post'' \<mapsto> PostVal post1,
            ''form'' \<mapsto> FormVal (CommentForm None None),
            ''comments'' \<mapsto> CommentsVal (comments blog_db)])"
  by (simp add: PostDetailView_def PostDetailView_get_object_def lookup_defs blog_data)

text \<open>
  C4, as the code has it.  The list view, the category view and the profile view deliver
  a page of ten of what the query builder returns (for all posts, for the posts of the
  published category, for the posts of the profile's owner; published only, except for
  the owner's own profile).  The detail view never delivers a page: it delivers the one
  post it looked up and all comments of that post.
\<close>

theorem page_views_data:
  "(page_obj_of (PostsListView meta_ordering db now request) = Some pg1 \<longrightarrow>
      (\<exists>n. page (get_annotated_posts meta_ordering db now None True) 10 (PageNumber n)
              = Inr pg1))
   \<and> (page_obj_of (category_posts meta_ordering db now request category_slug) = Some pg2 \<longrightarrow>
      (\<exists>cat n. get_object_or_404 (categories db)
                  (\<lambda>c. slug c = category_slug \<and> category_is_published c) = Inr cat
         \<and> page (get_annotated_posts meta_ordering db now
                   (Some (filter (\<lambda>p. category_id (category p) = category_id cat) (posts db)))
                   True) 10 (PageNumber n) = Inr pg2))
   \<and> (page_obj_of (ProfileView meta_ordering db now request uname) = Some pg3 \<longrightarrow>
      (\<exists>owner n. get_object_or_404 (users db) (\<lambda>u. username u = uname) = Inr owner
         \<and> page (get_annotated_posts meta_ordering db now
                   (Some (filter (\<lambda>p. author p = user_id owner) (posts db)))
                   (\<not> user_eq (user request) (user_id owner))) 10 (PageNumber n) = Inr pg3))
   \<and> page_obj_of (PostDetailView db now request pk) = None
   \<and> (PostDetailView db now request pk = Inr (Render template c) \<longrightarrow>
      (\<exists>post. Post_get_object db pk = Inr post
         \<and> c ''post'' = Some (PostVal post)
         \<and> c ''comments'' =
             Some (CommentsVal (filter (\<lambda>c. comment_post c = post_id post) (comments db)))))"
proof -
  have a: "\<exists>n. page (get_annotated_posts meta_ordering db now None True) 10 (PageNumber n)
              = Inr pg1"
    if "page_obj_of (PostsListView meta_ordering db now request) = Some pg1"
    using that
    by (auto simp: PostsListView_def Let_def split: http_method.splits sum.splits
             dest: paginate_queryset_is_page)
  have b: "\<exists>cat n. get_object_or_404 (categories db)
                  (\<lambda>c. slug c = category_slug \<and> category_is_published c) = Inr cat
         \<and> page (get_annotated_posts meta_ordering db now
                   (Some (filter (\<lambda>p. category_id (category p) = category_id cat) (posts db)))
                   True) 10 (PageNumber n) = Inr pg2"
    if "page_obj_of (category_posts meta_ordering db now request category_slug) = Some pg2"
    using that
    by (auto simp: category_posts_def Let_def split: sum.splits dest: get_page_is_page)
  have c: "\<exists>owner n. get_object_or_404 (users db) (\<lambda>u. username u = uname) = Inr owner
         \<and> page (get_annotated_posts meta_ordering db now
                   (Some (filter (\<lambda>p. author p = user_id owner) (posts db)))
                   (\<not> user_eq (user request) (user_id owner))) 10 (PageNumber n) = Inr pg3"
    if "page_obj_of (ProfileView meta_ordering db now request uname) = Some pg3"
  proof -
    from that obtain owner where
      o: "get_object_or_404 (users db) (\<lambda>u. username u = uname) = Inr owner"
      and g: "get_page (ProfileView_posts meta_ordering db now (user request) owner) 10
                (GET_page request) = Inr pg3"
      by (auto simp: ProfileView_def Let_def split: http_method.splits sum.splits)
    have "ProfileView_posts meta_ordering db now (user request) owner =
            get_annotated_posts meta_ordering db now
                   (Some (filter (\<lambda>p. author p = user_id owner) (posts db)))
                   (\<not> user_eq (user request) (user_id owner))"
      by (cases "user_eq (user request) (user_id owner)")
         (auto simp: ProfileView_posts_def dest: user_eq_authenticated)
    with g o show ?thesis using get_page_is_page by metis
  qed
  have d: "page_obj_of (PostDetailView db now request pk) = None"
    by (simp add: PostDetailView_def split: http_method.splits sum.splits)
  have e: "\<exists>post. Post_get_object db pk = Inr post
         \<and> c ''post'' = Some (PostVal post)
         \<and> c ''comments'' =
             Some (CommentsVal (filter (\<lambda>c. comment_post c = post_id post) (comments db)))"
    if "PostDetailView db now request pk = Inr (Render template c)"
    using that
    by (auto simp: PostDetailView_def PostDetailView_get_object_def
             split: http_method.splits sum.splits if_splits)
  show ?thesis using a b c d e by blast
qed

theorem page_views_data_witness:
  "page_obj_of (PostsListView newest_first blog_db 10 (get_by AnonymousUser))
     = Some [(post1, 11)]
   \<and> (\<exists>n. page (get_annotated_posts newest_first blog_db 10 None True) 10 (PageNumber n)
            = Inr [(post1, 11)])
   \<and> page_obj_of (category_posts newest_first blog_db 10 (get_by AnonymousUser) ''news'')
       = Some [(post1, 11)]
   \<and> (\<exists>cat n. get_object_or_404 (categories blog_db)
                 (\<lambda>c. slug c = ''news'' \<and> category_is_published c) = Inr cat
         \<and> page (get_annotated_posts newest_first blog_db 10
                   (Some (filter (\<lambda>p. category_id (category p) = category_id cat)
                            (posts blog_db)))
                   True) 10 (PageNumber n) = Inr [(post1, 11)])
   \<and> page_obj_of (ProfileView newest_first blog_db 10 (get_by (Authenticated bob)) ''alice'')
       = Some [(post1, 11)]
   \<and> (\<exists>owner n. get_object_or_404 (users blog_db) (\<lambda>u. username u = ''alice'') = Inr owner
         \<and> page (get_annotated_posts newest_first blog_db 10
                   (Some (filter (\<lambda>p. author p = user_id owner) (posts blog_db)))
                   (\<not> user_eq (user (get_by (Authenticated bob))) (user_id owner)))
               10 (PageNumber n) = Inr [(post1, 11)])
   \<and> page_obj_of (PostDetailView blog_db 10 (get_by AnonymousUser) 1) = None
   \<and> (\<exists>post. Post_get_object blog_db 1 = Inr post
         \<and> context_of (PostDetailView blog_db 10 (get_by AnonymousUser) 1) ''post''
             = Some (PostVal post))"
proof -
  note list_run = page_views_data [where meta_ordering = newest_first and db = blog_db
      and now = 10 and request = "get_by AnonymousUser" and category_slug = "''news''"
      and pk = 1 and ?pg1.0 = "[(post1, 11)]" and ?pg2.0 = "[(post1, 11)]"
      and template = "''blog/detail.html''"
      and c = "[''object'' \<mapsto> PostVal post1, ''post'' \<mapsto> PostVal post1,
            ''form'' \<mapsto> FormVal (CommentForm None None),
            ''comments'' \<mapsto> CommentsVal (comments blog_db)]"]
  note profile_run = page_views_data [where meta_ordering = newest_first and db = blog_db
      and now = 10 and request = "get_by (Authenticated bob)" and uname = "''alice''"
      and ?pg3.0 = "[(post1, 11)]"]
  from list_run blog_list_page
  have a: "\<exists>n. page (get_annotated_posts newest_first blog_db 10 None True) 10 (PageNumber n)
            = Inr [(post1, 11)]"
    by blast
  from list_run blog_category_page
  have b: "\<exists>cat n. get_object_or_404 (categories blog_db)
                 (\<lambda>c. slug c = ''news'' \<and> category_is_published c) = Inr cat
         \<and> page (get_annotated_posts newest_first blog_db 10
                   (Some (filter (\<lambda>p. category_id (category p) = category_id cat)
                            (posts blog_db)))
                   True) 10 (PageNumber n) = Inr [(post1, 11)]"
    by blast
  from profile_run blog_profile_page
  have c: "\<exists>owner n. get_object_or_404 (users blog_db) (\<lambda>u. username u = ''alice'') = Inr owner
         \<and> page (get_annotated_posts newest_first blog_db 10
                   (Some (filter (\<lambda>p. author p = user_id owner) (posts blog_db)))
                   (\<not> user_eq (user (get_by (Authenticated bob))) (user_id owner)))
               10 (PageNumber n) = Inr [(post1, 11)]"
    by blast
  from list_run have d: "page_obj_of (PostDetailView blog_db 10 (get_by AnonymousUser) 1) = None"
    by blast
  have ctx: "context_of (PostDetailView blog_db 10 (get_by AnonymousUser) 1) =
          [''object'' \<mapsto> PostVal post1, ''post'' \<mapsto> PostVal post1,
            ''form'' \<mapsto> FormVal (CommentForm None None),
            ''comments'' \<mapsto> CommentsVal (comments blog_db)]"
    by (simp only: blog_detail_page context_of.simps)
  from list_run blog_detail_page
  have e0: "\<exists>post. Post_get_object blog_db 1 = Inr post
         \<and> [''object'' \<mapsto> PostVal post1, ''post'' \<mapsto> PostVal post1,
            ''form'' \<mapsto> FormVal (CommentForm None None),
            ''comments'' \<mapsto> CommentsVal (comments blog_db)] ''post'' = Some (PostVal post)"
    by blast
  have e: "\<exists>post. Post_get_object blog_db 1 = Inr post
         \<and> context_of (PostDetailView blog_db 10 (get_by AnonymousUser) 1) ''post''
             = Some (PostVal post)"
    unfolding ctx by (rule e0)
  from blog_list_page a blog_category_page b blog_profile_page c d e show ?thesis by blast
qed

text \<open>
  C4, as stated, fails on the detail view: the detail page of the public post carries no
  page object, and all eleven comments of the post are delivered at once.
\<close>

theorem detail_counterexample:
  "page_obj_of (PostDetailView blog_db 10 (get_by AnonymousUser) 1) = None
   \<and> context_of (PostDetailView blog_db 10 (get_by AnonymousUser) 1) ''post'' = Some (PostVal post1)
   \<and> comments_of (PostDetailView blog_db 10 (get_by AnonymousUser) 1) = Some (comments blog_db)
   \<and> length (comments blog_db) = 11"
  by (simp add: PostDetailView_def PostDetailView_get_object_def Post_get_object_def
                get_object_or_404_def blog_data)

subsection \<open>The profile page\<close>

lemma num_pages_map [simp]: "num_pages (map f xs) per_page = num_pages xs per_page"
  by (simp add: num_pages_def)

lemma validate_number_map [simp]:
  "validate_number (map f xs) per_page number = validate_number xs per_page number"
  by (cases number) simp_all

lemma page_map:
  "page (map f xs) per_page number = map_sum id (map f) (page xs per_page number)"
  by (simp add: page_def Let_def take_map drop_map split: sum.splits)

lemma get_page_map:
  "get_page (map f xs) per_page number = map_sum id (map f) (get_page xs per_page number)"
  by (simp add: get_page_def Let_def page_map split: sum.splits invalid_page.splits)

lemma num_pages_pos: "0 < per_page \<Longrightarrow> 1 \<le> num_pages xs per_page"
  by (cases xs) (simp_all add: num_pages_def Let_def Suc_le_eq div_greater_zero_iff)

lemma validate_number_int:
  "1 \<le> n \<Longrightarrow> n \<le> num_pages xs per_page
     \<Longrightarrow> validate_number xs per_page (PageNumber (int n)) = Inr n"
  by simp

lemma get_page_total:
  assumes "0 < per_page"
  shows "\<exists>pg. get_page xs per_page number = Inr pg"
proof -
  have "\<exists>k. validate_number xs per_page (PageNumber (int n)) = Inr k"
    if "1 \<le> n" "n \<le> num_pages xs per_page" for n
    using that by simp
  moreover have "1 \<le> (case validate_number xs per_page number of
                 Inr n \<Rightarrow> n
               | Inl PageNotAnInteger \<Rightarrow> 1
               | Inl EmptyPage \<Rightarrow> num_pages xs per_page)
      \<and> (case validate_number xs per_page number of
                 Inr n \<Rightarrow> n
               | Inl PageNotAnInteger \<Rightarrow> 1
               | Inl EmptyPage \<Rightarrow> num_pages xs per_page) \<le> num_pages xs per_page"
    using num_pages_pos [OF assms, of xs]
    by (cases number) (auto split: sum.splits invalid_page.splits)
  ultimately show ?thesis
    by (auto simp: get_page_def page_def Let_def split: sum.splits)
qed

lemma nth_slice:
  assumes "b \<le> i" and "i < t" and "i < length xs"
  shows "xs ! i \<in> set (take (t - b) (drop b xs))"
proof -
  from assms have "take (t - b) (drop b xs) ! (i - b) = xs ! i"
    by simp
  moreover from assms have "i - b < length (take (t - b) (drop b xs))"
    by (simp add: diff_less_mono)
  ultimately show ?thesis
    by (metis nth_mem)
qed

lemma get_page_covers:
  assumes "0 < per_page" and "x \<in> set xs"
  shows "\<exists>n pg. get_page xs per_page (PageNumber n) = Inr pg \<and> x \<in> set pg"
proof -
  from assms(2) obtain i where i: "i < length xs" "xs ! i = x"
    by (auto simp: in_set_conv_nth)
  let ?n = "i div per_page + 1"
  let ?bottom = "(i div per_page) * per_page"
  have len: "1 \<le> length xs" using i by simp
  have "i div per_page \<le> (length xs - 1) div per_page"
    using i by (intro div_le_mono) simp
  also have "(length xs - 1) div per_page + 1 = (length xs - 1 + per_page) div per_page"
    using assms(1) by (simp add: div_add_self2)
  finally have np: "?n \<le> num_pages xs per_page"
    using len by (simp add: num_pages_def Let_def max_def)
  then have v: "validate_number xs per_page (PageNumber (int ?n)) = Inr ?n"
    by (intro validate_number_int) simp_all
  have b: "?bottom \<le> i" by simp
  have t: "i < ?bottom + per_page"
    using assms(1) by (metis add.commute dividend_less_div_times)
  let ?top = "if ?bottom + per_page \<ge> length xs then length xs else ?bottom + per_page"
  have it: "i < ?top" using i t by simp
  have pg: "page xs per_page (PageNumber (int ?n)) = Inr (take (?top - ?bottom) (drop ?bottom xs))"
    using v by (simp add: page_def Let_def)
  have "xs ! i \<in> set (take (?top - ?bottom) (drop ?bottom xs))"
    using b it i(1) by (rule nth_slice)
  then have "x \<in> set (take (?top - ?bottom) (drop ?bottom xs))"
    unfolding i(2) .
  moreover have "get_page xs per_page (PageNumber (int ?n)) =
                   Inr (take (?top - ?bottom) (drop ?bottom xs))"
    using v pg by (simp add: get_page_def Let_def)
  ultimately show ?thesis by blast
qed

lemma ProfileView_posts_other:
  assumes "\<not> user_eq v (user_id owner)"
  shows "ProfileView_posts meta_ordering db now v owner =
           map (\<lambda>p. (p, Count_comments db p))
             (sort_key meta_ordering
               (filter (\<lambda>p. author p = user_id owner \<and> is_published p
                             \<and> category_is_published (category p) \<and> pub_date p \<le> now)
                  (posts db)))"
  using assms by (simp add: ProfileView_posts_def get_annotated_posts_eq)

lemma ProfileView_posts_owner:
  assumes "user_eq v (user_id owner)"
  shows "ProfileView_posts meta_ordering db now v owner =
           map (\<lambda>p. (p, Count_comments db p))
             (sort_key meta_ordering (filter (\<lambda>p. author p = user_id owner) (posts db)))"
  using assms by (simp add: ProfileView_posts_def get_annotated_posts_eq user_eq_authenticated)

lemma ProfileView_found:
  assumes "get_object_or_404 (users db) (\<lambda>u. username u = uname) = Inr owner"
      and "request_method request = GET"
  shows "ProfileView meta_ordering db now request uname =
           (case get_page (ProfileView_posts meta_ordering db now (user request) owner) 10
                   (GET_page request) of
              Inl e \<Rightarrow> Inl (InvalidPage e)
            | Inr page_obj \<Rightarrow>
                Inr (Render ''blog/profile.html''
                      [''object'' \<mapsto> UserVal owner, ''profile'' \<mapsto> UserVal owner,
                       ''page_obj'' \<mapsto> PageVal page_obj]))"
  using assms by (simp add: ProfileView_def Let_def)

lemma page_obj_of_ProfileView:
  assumes "get_object_or_404 (users db) (\<lambda>u. username u = uname) = Inr owner"
      and "request_method request = GET"
  shows "page_obj_of (ProfileView meta_ordering db now request uname) =
           (case get_page (ProfileView_posts meta_ordering db now (user request) owner) 10
                   (GET_page request) of
              Inl e \<Rightarrow> None | Inr page_obj \<Rightarrow> Some page_obj)"
  by (simp add: ProfileView_found [OF assms] split: sum.splits)

lemma ProfileView_not_GET:
  "request_method request \<noteq> GET
     \<Longrightarrow> ProfileView meta_ordering db now request uname = Inr HttpResponseNotAllowed"
  by (cases "request_method request") (simp_all add: ProfileView_def)

text \<open>
  C8, as the code has it.  A viewer who is not the owner of a profile (the anonymous
  viewer included) is shown posts that depend on the owner's published posts only: two
  databases that hold the same owner under the name and agree on the owner's published
  posts lead to the same posts on the profile page, and to the same profile page
  altogether when they also agree on how many comments each of these posts has (the page
  shows that number), so posts that are not published are never revealed.  The owner,
  when authenticated, finds every one of their posts on some page of the profile.
\<close>

theorem profile_noninterference:
  "(get_object_or_404 (users db1) (\<lambda>u. username u = uname) = Inr owner
      \<and> get_object_or_404 (users db2) (\<lambda>u. username u = uname) = Inr owner
      \<and> \<not> user_eq (user request) (user_id owner)
      \<and> filter (\<lambda>p. author p = user_id owner \<and> is_published p
                     \<and> category_is_published (category p) \<and> pub_date p \<le> now) (posts db1)
          = filter (\<lambda>p. author p = user_id owner \<and> is_published p
                     \<and> category_is_published (category p) \<and> pub_date p \<le> now) (posts db2)
    \<longrightarrow> map_option (map fst) (page_obj_of (ProfileView meta_ordering db1 now request uname))
          = map_option (map fst) (page_obj_of (ProfileView meta_ordering db2 now request uname))
        \<and> ((\<forall>p \<in> set (posts db1).
               author p = user_id owner \<and> is_published p
                 \<and> category_is_published (category p) \<and> pub_date p \<le> now
               \<longrightarrow> length (filter (\<lambda>c. comment_post c = post_id p) (comments db1))
                     = length (filter (\<lambda>c. comment_post c = post_id p) (comments db2)))
            \<longrightarrow> ProfileView meta_ordering db1 now request uname
                  = ProfileView meta_ordering db2 now request uname))
   \<and> (get_object_or_404 (users db) (\<lambda>u. username u = uname) = Inr owner
      \<and> user_eq (user request) (user_id owner)
      \<and> request_method request = GET
      \<and> p \<in> set (posts db) \<and> author p = user_id owner
    \<longrightarrow> (\<exists>n pg. page_obj_of (ProfileView meta_ordering db now
                               (request\<lparr>GET_page := PageNumber n\<rparr>) uname) = Some pg
                 \<and> p \<in> fst ` set pg))"
proof -
  let ?pub = "\<lambda>p. author p = user_id owner \<and> is_published p
                     \<and> category_is_published (category p) \<and> pub_date p \<le> now"
  have a: "map_option (map fst) (page_obj_of (ProfileView meta_ordering db1 now request uname))
          = map_option (map fst) (page_obj_of (ProfileView meta_ordering db2 now request uname))"
    if o1: "get_object_or_404 (users db1) (\<lambda>u. username u = uname) = Inr owner"
    and o2: "get_object_or_404 (users db2) (\<lambda>u. username u = uname) = Inr owner"
    and other: "\<not> user_eq (user request) (user_id owner)"
    and agree: "filter ?pub (posts db1) = filter ?pub (posts db2)"
  proof (cases "request_method request = GET")
    case True
    have "map_option (map fst)
            (case get_page (map (\<lambda>p. (p, Count_comments d p)) xs) 10 (GET_page request) of
               Inl e \<Rightarrow> None | Inr page_obj \<Rightarrow> Some page_obj)
          = (case get_page xs 10 (GET_page request) of
               Inl e \<Rightarrow> None | Inr page_obj \<Rightarrow> Some page_obj)"
      for d :: database and xs :: "post list"
      by (simp add: get_page_map comp_def split: sum.splits)
    then show ?thesis
      by (simp add: page_obj_of_ProfileView [OF o1 True] page_obj_of_ProfileView [OF o2 True]
                    ProfileView_posts_other [OF other] agree del: page_obj_of.simps)
  next
    case False
    then show ?thesis by (simp add: ProfileView_not_GET)
  qed
  have b: "ProfileView meta_ordering db1 now request uname
                  = ProfileView meta_ordering db2 now request uname"
    if o1: "get_object_or_404 (users db1) (\<lambda>u. username u = uname) = Inr owner"
    and o2: "get_object_or_404 (users db2) (\<lambda>u. username u = uname) = Inr owner"
    and other: "\<not> user_eq (user request) (user_id owner)"
    and agree: "filter ?pub (posts db1) = filter ?pub (posts db2)"
    and counts: "\<forall>p \<in> set (posts db1). ?pub p
           \<longrightarrow> length (filter (\<lambda>c. comment_post c = post_id p) (comments db1))
                 = length (filter (\<lambda>c. comment_post c = post_id p) (comments db2))"
  proof (cases "request_method request = GET")
    case True
    have "map (\<lambda>p. (p, Count_comments db1 p)) (sort_key meta_ordering (filter ?pub (posts db1)))
          = map (\<lambda>p. (p, Count_comments db2 p)) (sort_key meta_ordering (filter ?pub (posts db1)))"
      using counts by (intro map_cong) (auto simp: Count_comments_def)
    then have "ProfileView_posts meta_ordering db1 now (user request) owner
             = ProfileView_posts meta_ordering db2 now (user request) owner"
      by (simp add: ProfileView_posts_other [OF other] agree)
    then show ?thesis
      by (simp add: ProfileView_found [OF o1 True] ProfileView_found [OF o2 True])
  next
    case False
    then show ?thesis by (simp add: ProfileView_not_GET)
  qed
  have c: "\<exists>n pg. page_obj_of (ProfileView meta_ordering db now
                               (request\<lparr>GET_page := PageNumber n\<rparr>) uname) = Some pg
                 \<and> p \<in> fst ` set pg"
    if o: "get_object_or_404 (users db) (\<lambda>u. username u = uname) = Inr owner"
    and own: "user_eq (user request) (user_id owner)"
    and get: "request_method request = GET"
    and p: "p \<in> set (posts db)" "author p = user_id owner"
  proof -
    let ?qs = "ProfileView_posts meta_ordering db now (user request) owner"
    from p have "(p, Count_comments db p) \<in> set ?qs"
      by (simp add: ProfileView_posts_owner [OF own])
    with get_page_covers [of 10 "(p, Count_comments db p)" ?qs]
    obtain n pg where pg: "get_page ?qs 10 (PageNumber n) = Inr pg"
      and mem: "(p, Count_comments db p) \<in> set pg"
      by auto
    have get': "request_method (request\<lparr>GET_page := PageNumber n\<rparr>) = GET"
      using get by simp
    have "page_obj_of (ProfileView meta_ordering db now
                         (request\<lparr>GET_page := PageNumber n\<rparr>) uname) = Some pg"
      using pg by (simp add: page_obj_of_ProfileView [OF o get'] del: page_obj_of.simps)
    moreover from mem have "p \<in> fst ` set pg"
      by force
    ultimately show ?thesis by blast
  qed
  show ?thesis using a b c by blast
qed

theorem profile_noninterference_witness:
  "get_object_or_404 (users blog_db) (\<lambda>u. username u = ''alice'') = Inr alice
   \<and> get_object_or_404 (users public_db) (\<lambda>u. username u = ''alice'') = Inr alice
   \<and> \<not> user_eq (user (get_by (Authenticated bob))) (user_id alice)
   \<and> filter (\<lambda>p. author p = user_id alice \<and> is_published p
                  \<and> category_is_published (category p) \<and> pub_date p \<le> 10) (posts blog_db)
       = filter (\<lambda>p. author p = user_id alice \<and> is_published p
                  \<and> category_is_published (category p) \<and> pub_date p \<le> 10) (posts public_db)
   \<and> posts blog_db \<noteq> posts public_db
   \<and> ProfileView newest_first blog_db 10 (get_by (Authenticated bob)) ''alice''
       = ProfileView newest_first public_db 10 (get_by (Authenticated bob)) ''alice''
   \<and> user_eq (user (get_by (Authenticated alice))) (user_id alice)
   \<and> post2 \<in> set (posts blog_db)
   \<and> (\<exists>n pg. page_obj_of (ProfileView newest_first blog_db 10
                             ((get_by (Authenticated alice))\<lparr>GET_page := PageNumber n\<rparr>)
                             ''alice'') = Some pg
              \<and> post2 \<in> fst ` set pg)"
proof -
  have o1: "get_object_or_404 (users blog_db) (\<lambda>u. username u = ''alice'') = Inr alice"
    by (simp add: get_object_or_404_def blog_data)
  have o2: "get_object_or_404 (users public_db) (\<lambda>u. username u = ''alice'') = Inr alice"
    by (simp add: get_object_or_404_def public_db_def blog_data)
  have other: "\<not> user_eq (user (get_by (Authenticated bob))) (user_id alice)"
    by (simp add: blog_data)
  have agree: "filter (\<lambda>p. author p = user_id alice \<and> is_published p
                  \<and> category_is_published (category p) \<and> pub_date p \<le> 10) (posts blog_db)
       = filter (\<lambda>p. author p = user_id alice \<and> is_published p
                  \<and> category_is_published (category p) \<and> pub_date p \<le> 10) (posts public_db)"
    by (simp add: public_db_def blog_data)
  have differ: "posts blog_db \<noteq> posts public_db"
    by (simp add: public_db_def blog_data)
  have counts: "\<forall>p \<in> set (posts blog_db).
               author p = user_id alice \<and> is_published p
                 \<and> category_is_published (category p) \<and> pub_date p \<le> 10
               \<longrightarrow> length (filter (\<lambda>c. comment_post c = post_id p) (comments blog_db))
                     = length (filter (\<lambda>c. comment_post c = post_id p) (comments public_db))"
    by (simp add: public_db_def)
  have own: "user_eq (user (get_by (Authenticated alice))) (user_id alice)"
            "request_method (get_by (Authenticated alice)) = GET"
            "post2 \<in> set (posts blog_db)" "author post2 = user_id alice"
    by (simp_all add: blog_data)
  note guest_run = profile_noninterference [where ?db1.0 = blog_db and ?db2.0 = public_db
      and owner = alice and uname = "''alice''" and now = 10
      and request = "get_by (Authenticated bob)" and meta_ordering = newest_first]
  note owner_run = profile_noninterference [where db = blog_db and owner = alice
      and uname = "''alice''" and now = 10 and request = "get_by (Authenticated alice)"
      and meta_ordering = newest_first and p = post2]
  from guest_run o1 o2 other agree counts
  have a: "ProfileView newest_first blog_db 10 (get_by (Authenticated bob)) ''alice''
       = ProfileView newest_first public_db 10 (get_by (Authenticated bob)) ''alice''"
    by blast
  from owner_run o1 own
  have b: "\<exists>n pg. page_obj_of (ProfileView newest_first blog_db 10
                             ((get_by (Authenticated alice))\<lparr>GET_page := PageNumber n\<rparr>)
                             ''alice'') = Some pg
              \<and> post2 \<in> fst ` set pg"
    by blast
  from o1 o2 other agree differ a own(1,3) b show ?thesis by blast
qed

text \<open>
  C8, as stated (the same profile page from agreement on the owner's published posts
  alone), fails: the first database and the one without its comments hold the same users
  and the same posts, yet the anonymous viewer of the first user's profile is shown the
  public post with eleven comments in the one and with none in the other.
\<close>

theorem profile_counterexample:
  "users quiet_db = users blog_db
   \<and> posts quiet_db = posts blog_db
   \<and> page_obj_of (ProfileView newest_first blog_db 10 (get_by AnonymousUser) ''alice'')
       = Some [(post1, 11)]
   \<and> page_obj_of (ProfileView newest_first quiet_db 10 (get_by AnonymousUser) ''alice'')
       = Some [(post1, 0)]
   \<and> ProfileView newest_first blog_db 10 (get_by AnonymousUser) ''alice''
       \<noteq> ProfileView newest_first quiet_db 10 (get_by AnonymousUser) ''alice''"
proof -
  have a: "page_obj_of (ProfileView newest_first blog_db 10 (get_by AnonymousUser) ''alice'')
       = Some [(post1, 11)]"
    by (simp add: ProfileView_def ProfileView_posts_def get_annotated_posts_def Let_def
                  Count_comments_def get_page_def page_def num_pages_def get_object_or_404_def
                  blog_data)
  have b: "page_obj_of (ProfileView newest_first quiet_db 10 (get_by AnonymousUser) ''alice'')
       = Some [(post1, 0)]"
    by (simp add: ProfileView_def ProfileView_posts_def get_annotated_posts_def Let_def
                  Count_comments_def get_page_def page_def num_pages_def get_object_or_404_def
                  quiet_db_def blog_data)
  have c: "users quiet_db = users blog_db" "posts quiet_db = posts blog_db"
    by (simp_all add: quiet_db_def)
  from a b have "ProfileView newest_first blog_db 10 (get_by AnonymousUser) ''alice''
       \<noteq> ProfileView newest_first quiet_db 10 (get_by AnonymousUser) ''alice''"
    by (metis list.inject old.prod.inject option.inject zero_neq_numeral)
  with a b c show ?thesis by blast
qed

end
